theory Spec2Isabelle
  imports Main "HOL-Library.FSet"
begin

section \<open>Strings, characters and Python values\<close>

text \<open>
  A Python \<open>str\<close> is modelled as a \<^typ>\<open>string\<close>: a list of characters with code points
  0 to 255 (Latin-1). On that range the character classes and case mappings below are
  those of CPython's \<open>str\<close> and \<open>re\<close> modules for text patterns; code points above 255 are
  not represented.
\<close>

definition code :: "char \<Rightarrow> nat" where
  "code c = of_char c"

text \<open>\<open>str.lower()\<close>, one character: A to Z, and the Latin-1 capitals U+00C0 to U+00DE
  but for the multiplication sign U+00D7, move up by 32.\<close>

definition py_lower_char :: "char \<Rightarrow> char" where
  "py_lower_char c =
     (case map_of (zip ''ABCDEFGHIJKLMNOPQRSTUVWXYZ'' ''abcdefghijklmnopqrstuvwxyz'') c of
        Some d \<Rightarrow> d
      | None \<Rightarrow>
          if 192 \<le> code c \<and> code c \<le> 222 \<and> code c \<noteq> 215 then char_of (code c + 32) else c)"

definition py_lower :: "string \<Rightarrow> string" where
  "py_lower s = map py_lower_char s"

text \<open>\<open>str.upper()\<close> on ASCII letters. It is applied to the text matched by the method
  group only, which consists of ASCII letters.\<close>

definition ascii_upper_char :: "char \<Rightarrow> char" where
  "ascii_upper_char c =
     (case map_of (zip ''abcdefghijklmnopqrstuvwxyz'' ''ABCDEFGHIJKLMNOPQRSTUVWXYZ'') c of
        Some d \<Rightarrow> d
      | None \<Rightarrow> c)"

definition ascii_upper :: "string \<Rightarrow> string" where
  "ascii_upper s = map ascii_upper_char s"

text \<open>The class \<open>[a-z0-9]\<close>.\<close>

definition is_az09 :: "char \<Rightarrow> bool" where
  "is_az09 c \<longleftrightarrow> (97 \<le> code c \<and> code c \<le> 122) \<or> (48 \<le> code c \<and> code c \<le> 57)"

text \<open>The class \<open>\s\<close> of a text pattern: tab to carriage return, the separators U+001C to
  U+001F, space, U+0085 and U+00A0.\<close>

definition is_space :: "char \<Rightarrow> bool" where
  "is_space c \<longleftrightarrow>
     (9 \<le> code c \<and> code c \<le> 13) \<or> (28 \<le> code c \<and> code c \<le> 32) \<or> code c = 133 \<or> code c = 160"

text \<open>The class \<open>\w\<close> of a text pattern: what \<open>str.isalnum\<close> accepts, and the underscore.\<close>

definition is_word :: "char \<Rightarrow> bool" where
  "is_word c \<longleftrightarrow>
     (48 \<le> code c \<and> code c \<le> 57) \<or> (65 \<le> code c \<and> code c \<le> 90) \<or> code c = 95 \<or>
     (97 \<le> code c \<and> code c \<le> 122) \<or>
     code c \<in> {170, 178, 179, 181, 185, 186, 188, 189, 190} \<or>
     (192 \<le> code c \<and> code c \<le> 214) \<or> (216 \<le> code c \<and> code c \<le> 246) \<or> 248 \<le> code c"

text \<open>
  A decoded JSON value, that is, the Python object \<open>json.loads\<close> returns: \<open>None\<close>, a
  \<open>bool\<close>, an \<open>int\<close>, a \<open>float\<close>, a \<open>str\<close>, a \<open>list\<close> or a \<open>dict\<close> (its items in
  insertion order, each key once, looked up with \<^const>\<open>map_of\<close>).

  A \<open>float\<close> is kept as the number it was read from: the sign, the digits \<open>m\<close> and the
  exponent \<open>e\<close> of the decimal \<open>m * 10 ^ e\<close>, which Python rounds to the nearest double; or
  one of \<open>Infinity\<close>, \<open>-Infinity\<close> and \<open>NaN\<close>. Two decimals may stand for the same double: the
  code never compares floats, it only tests them for truth.
\<close>

datatype pyfloat = Decimal bool nat int | Infinity bool | NaN

datatype json =
    JNull
  | JBool bool
  | JInt int
  | JFloat pyfloat
  | JString string
  | JArray "json list"
  | JObject "(string \<times> json) list"

text \<open>A decimal is read as the double \<open>0.0\<close> or \<open>-0.0\<close> when it is at most
  \<open>2 ^ (-1075)\<close>, half of the least positive double (rounding is to nearest, ties to even).\<close>

definition rounds_to_zero :: "nat \<Rightarrow> int \<Rightarrow> bool" where
  "rounds_to_zero m e \<longleftrightarrow> m = 0 \<or> (e < 0 \<and> m * 2 ^ 1075 \<le> 10 ^ nat (- e))"

text \<open>Truth value testing, as \<open>or\<close> and \<open>if\<close> do it.\<close>

fun truthy :: "json \<Rightarrow> bool" where
  "truthy JNull = False"
| "truthy (JBool b) = b"
| "truthy (JInt i) = (i \<noteq> 0)"
| "truthy (JFloat (Decimal neg m e)) = (\<not> rounds_to_zero m e)"
| "truthy (JFloat f) = True"
| "truthy (JString s) = (s \<noteq> [])"
| "truthy (JArray xs) = (xs \<noteq> [])"
| "truthy (JObject kvs) = (kvs \<noteq> [])"

text \<open>The exceptions the code raises or lets through. All of them derive from
  \<open>Exception\<close>: they are what \<open>except Exception\<close> catches. Each carries \<open>str(exc)\<close>. A
  \<open>JSONDecodeError\<close> is what \<open>except json.JSONDecodeError\<close> catches; \<open>ValueError\<close> stands for
  a \<open>ValueError\<close> that is not one.\<close>

datatype exn =
    ValueError string
  | JSONDecodeError string
  | RecursionError string
  | RuntimeError string
  | AttributeError string
  | TypeError string
  | RegexError string
  | OtherException string

section \<open>orchestration/models.py\<close>

text \<open>
  The dataclasses \<open>EndpointSpec\<close> and \<open>Blueprint\<close>. The fields annotated \<open>str\<close> hold a
  \<^typ>\<open>json\<close> value: nothing checks the annotation, and \<open>blueprint_from_dict\<close> stores whatever
  value the decoded response has under the key. A \<open>str\<close> is a \<^const>\<open>JString\<close>.
\<close>

record EndpointSpec =
  name :: json
  method' :: json
  path :: json
  description :: json

record Blueprint =
  name :: json
  summary :: json
  endpoints :: "EndpointSpec list"
  prerequisites :: "string list"

definition DEFAULT_BLUEPRINT_NAME :: string where
  "DEFAULT_BLUEPRINT_NAME = ''GeneratedMCPServer''"

section \<open>orchestration/llm.py: the heuristic extractor\<close>

subsection \<open>slugify\<close>

text \<open>\<open>re.sub(r"[C]+", repl, s)\<close> for a character class \<open>C\<close>: scanning from the left, each
  run of class characters, taken as long as it goes (the quantifier is greedy), is replaced
  by \<open>repl\<close>; the other characters are copied.\<close>

function re_sub_class_plus :: "(char \<Rightarrow> bool) \<Rightarrow> string \<Rightarrow> string \<Rightarrow> string" where
  "re_sub_class_plus C repl [] = []"
| "re_sub_class_plus C repl (c # cs) =
     (if C c then repl @ re_sub_class_plus C repl (dropWhile C cs)
      else c # re_sub_class_plus C repl cs)"
  by pat_completeness auto
termination
  by (relation "measure (\<lambda>(C, repl, s). length s)")
     (auto simp: length_dropWhile_le le_imp_less_Suc)

text \<open>\<open>s.strip(chars)\<close>.\<close>

definition py_strip :: "string \<Rightarrow> string \<Rightarrow> string" where
  "py_strip chars s =
     rev (dropWhile (\<lambda>c. c \<in> set chars) (rev (dropWhile (\<lambda>c. c \<in> set chars) s)))"

definition slugify :: "string \<Rightarrow> string" where
  "slugify value0 =
     (let value1 = py_lower value0;
          value2 = re_sub_class_plus (\<lambda>c. \<not> is_az09 c) ''_'' value1;
          value3 = py_strip ''_'' (re_sub_class_plus (\<lambda>c. c = CHR ''_'') ''_'' value2)
      in if value3 = [] then ''endpoint'' else value3)"

text \<open>The specification's wording of \<open>slugify\<close>: lowercase; every maximal run of characters
  outside \<open>[a-z0-9]\<close> becomes one underscore (written where the run ends); leading and
  trailing underscores are stripped; the empty result becomes \<open>endpoint\<close>.\<close>

fun replace_runs :: "(char \<Rightarrow> bool) \<Rightarrow> string \<Rightarrow> string" where
  "replace_runs C [] = []"
| "replace_runs C [c] = (if C c then ''_'' else [c])"
| "replace_runs C (c # d # cs) =
     (if C c then (if C d then replace_runs C (d # cs) else CHR ''_'' # replace_runs C (d # cs))
      else c # replace_runs C (d # cs))"

fun strip_leading_underscores :: "string \<Rightarrow> string" where
  "strip_leading_underscores [] = []"
| "strip_leading_underscores (c # cs) =
     (if c = CHR ''_'' then strip_leading_underscores cs else c # cs)"

definition slugify_spec :: "string \<Rightarrow> string" where
  "slugify_spec v =
     (let r = rev (strip_leading_underscores (rev (strip_leading_underscores
                (replace_runs (\<lambda>c. \<not> is_az09 c) (py_lower v)))))
      in if r = [] then ''endpoint'' else r)"

subsection \<open>extract_endpoints\<close>

text \<open>
  The pattern of \<open>extract_endpoints\<close>, compiled with \<open>re.IGNORECASE\<close>:
  \<^verbatim>\<open>(?P<method>GET|POST|PUT|PATCH|DELETE|OPTIONS|HEAD)\s+(?P<path>/[\w\-/{}.:]*)\<close>
  The matcher below follows the backtracking search of \<open>re\<close> on this pattern. A literal
  character matches, ignoring case, a character with the same lowercase form.
\<close>

definition eq_ignorecase :: "char \<Rightarrow> char \<Rightarrow> bool" where
  "eq_ignorecase p c \<longleftrightarrow> py_lower_char p = py_lower_char c"

text \<open>A literal word at the head of the text: the matched text and what follows it.\<close>

fun match_literal :: "string \<Rightarrow> string \<Rightarrow> (string \<times> string) option" where
  "match_literal [] text = Some ([], text)"
| "match_literal (p # ps) [] = None"
| "match_literal (p # ps) (c # cs) =
     (if eq_ignorecase p c
      then (case match_literal ps cs of None \<Rightarrow> None | Some (m, rest) \<Rightarrow> Some (c # m, rest))
      else None)"

text \<open>The class \<open>[\w\-/{}.:]\<close> of the path group.\<close>

definition is_path_char :: "char \<Rightarrow> bool" where
  "is_path_char c \<longleftrightarrow> is_word c \<or> c \<in> set ''-/{}.:''"

text \<open>
  \<^verbatim>\<open>\s+(?P<path>/[\w\-/{}.:]*)\<close> at the head of the text: the path group and what
  follows the match. Both quantifiers are greedy. Giving back whitespace cannot help, since
  the character given back is whitespace and not the \<open>/\<close> that must follow; nothing
  follows the path class, so it keeps all it took.
\<close>

definition match_space_path :: "string \<Rightarrow> (string \<times> string) option" where
  "match_space_path text =
     (if takeWhile is_space text = [] then None
      else (case dropWhile is_space text of
              [] \<Rightarrow> None
            | c # cs \<Rightarrow>
                if c = CHR ''/''
                then Some (c # takeWhile is_path_char cs, dropWhile is_path_char cs)
                else None))"

text \<open>The alternatives of the method group are tried in the order written; when the rest
  of the pattern fails after one of them, the next is tried.\<close>

fun match_alternatives :: "string list \<Rightarrow> string \<Rightarrow> (string \<times> string \<times> string) option" where
  "match_alternatives [] text = None"
| "match_alternatives (v # vs) text =
     (case match_literal v text of
        None \<Rightarrow> match_alternatives vs text
      | Some (m, rest) \<Rightarrow>
          (case match_space_path rest of
             None \<Rightarrow> match_alternatives vs text
           | Some (p, rest') \<Rightarrow> Some (m, p, rest')))"

text \<open>One match attempt of the whole pattern at the head of the text: the method group,
  the path group and the text after the match.\<close>

definition endpoint_pattern_match :: "string \<Rightarrow> (string \<times> string \<times> string) option" where
  "endpoint_pattern_match text =
     match_alternatives [''GET'', ''POST'', ''PUT'', ''PATCH'', ''DELETE'', ''OPTIONS'', ''HEAD''] text"

lemma match_literal_length:
  "match_literal v s = Some (m, rest) \<Longrightarrow> length rest \<le> length s"
proof (induction v s arbitrary: m rule: match_literal.induct)
  case (3 p ps c cs)
  then show ?case
    by (auto split: if_splits option.splits simp: le_Suc_eq)
qed auto

lemma match_space_path_length:
  "match_space_path text = Some (p, rest) \<Longrightarrow> length rest < length text"
proof -
  assume a: "match_space_path text = Some (p, rest)"
  have l: "length (dropWhile is_path_char cs) \<le> length cs" for cs
    by (rule length_dropWhile_le)
  from a obtain cs where d: "dropWhile is_space text = CHR ''/'' # cs"
    and r: "rest = dropWhile is_path_char cs"
    by (auto simp: match_space_path_def split: if_splits list.splits)
  have "length (dropWhile is_space text) \<le> length text"
    by (rule length_dropWhile_le)
  with d have "length cs < length text" by simp
  with l [of cs] r show ?thesis by simp
qed

lemma match_alternatives_length:
  "match_alternatives vs text = Some (m, p, rest) \<Longrightarrow> length rest < length text"
proof (induction vs)
  case Nil
  then show ?case by simp
next
  case (Cons v vs)
  then show ?case
    by (auto split: option.splits dest!: match_literal_length match_space_path_length)
qed

lemma endpoint_pattern_match_length:
  "endpoint_pattern_match s = Some (m, p, rest) \<Longrightarrow> length rest < length s"
  unfolding endpoint_pattern_match_def by (rule match_alternatives_length)

text \<open>\<open>endpoint_pattern.finditer(text)\<close>: the matches from left to right, each as its
  method and path groups. The search resumes where the last match ended (a match is never
  empty), and one character further on where there was none.\<close>

function finditer :: "string \<Rightarrow> (string \<times> string) list" where
  "finditer [] = []"
| "finditer (c # cs) =
     (case endpoint_pattern_match (c # cs) of
        None \<Rightarrow> finditer cs
      | Some (m, p, rest) \<Rightarrow> (m, p) # finditer rest)"
  by pat_completeness auto
termination
proof (relation "measure length")
  fix c cs x2 x y xa ya
  assume "endpoint_pattern_match (c # cs) = Some x2" and "(x, y) = x2" and "(xa, ya) = y"
  then have "endpoint_pattern_match (c # cs) = Some (x, xa, ya)" by simp
  then have "length ya < length (c # cs)" by (rule endpoint_pattern_match_length)
  then show "(ya, c # cs) \<in> measure length" by simp
qed auto

definition extract_endpoints :: "string \<Rightarrow> EndpointSpec list" where
  "extract_endpoints text =
     map (\<lambda>(m, p).
            let method = ascii_upper m;
                path = p;
                name = slugify (method @ '' '' @ path);
                description = ''Auto-detected endpoint for '' @ method @ '' '' @ path
            in \<lparr>EndpointSpec.name = JString name, method' = JString method,
                path = JString path, description = JString description\<rparr>)
         (finditer text)"

subsection \<open>HeuristicLLMClient\<close>

definition HeuristicLLMClient_generate_blueprint :: "string \<Rightarrow> string \<Rightarrow> Blueprint" where
  "HeuristicLLMClient_generate_blueprint self_name prompt =
     (let endpoints = extract_endpoints prompt;
          summary = ''Heuristically generated MCP server blueprint''
      in \<lparr>Blueprint.name = JString self_name, summary = JString summary,
          endpoints = endpoints, prerequisites = []\<rparr>)"

section \<open>orchestration/llm.py: the remote client's response parser\<close>

text \<open>
  The standard library functions the parser calls, as parameters: \<open>json.loads\<close> (the
  decoded value, or the exception it raises) and \<open>repr\<close> on values that are not strings.
\<close>

record pylib =
  json_loads :: "string \<Rightarrow> exn + json"
  py_repr :: "json \<Rightarrow> string"

text \<open>\<open>str(v)\<close>, which is also how an f-string formats \<open>v\<close>: a string is itself, and the
  other values print as \<open>repr\<close> prints them.\<close>

definition py_str :: "pylib \<Rightarrow> json \<Rightarrow> string" where
  "py_str lib v = (case v of JString s \<Rightarrow> s | _ \<Rightarrow> py_repr lib v)"

text \<open>\<open>d.get(key, default)\<close> on the items of a dict.\<close>

definition dict_get :: "(string \<times> json) list \<Rightarrow> string \<Rightarrow> json \<Rightarrow> json" where
  "dict_get d key dflt = (case map_of d key of Some v \<Rightarrow> v | None \<Rightarrow> dflt)"

text \<open>Iterating a value in a \<open>for\<close> clause: the elements of a list, the keys of a dict, the
  characters of a string; the other values are not iterable.\<close>

fun py_iter :: "json \<Rightarrow> exn + json list" where
  "py_iter (JArray xs) = Inr xs"
| "py_iter (JObject kvs) = Inr (map (\<lambda>kv. JString (fst kv)) kvs)"
| "py_iter (JString s) = Inr (map (\<lambda>c. JString [c]) s)"
| "py_iter v = Inl (TypeError ''object is not iterable'')"

text \<open>One element of the list comprehension of \<open>blueprint_from_dict\<close>. Only a dict has
  the method \<open>get\<close>.\<close>

definition endpoint_from_item :: "pylib \<Rightarrow> json \<Rightarrow> exn + EndpointSpec" where
  "endpoint_from_item lib item =
     (case item of
        JObject d \<Rightarrow>
          Inr \<lparr>EndpointSpec.name =
                 dict_get d ''name''
                   (JString (slugify (py_str lib (dict_get d ''method'' (JString ''get'')) @ '' '' @
                                      py_str lib (dict_get d ''path'' (JString ''/''))))),
               method' = dict_get d ''method'' (JString ''GET''),
               path = dict_get d ''path'' (JString ''/''),
               description = dict_get d ''description'' (JString [])\<rparr>
      | _ \<Rightarrow> Inl (AttributeError ''object has no attribute get''))"

fun endpoint_specs :: "pylib \<Rightarrow> json list \<Rightarrow> exn + EndpointSpec list" where
  "endpoint_specs lib [] = Inr []"
| "endpoint_specs lib (item # items) =
     (case endpoint_from_item lib item of
        Inl e \<Rightarrow> Inl e
      | Inr ep \<Rightarrow>
          (case endpoint_specs lib items of Inl e \<Rightarrow> Inl e | Inr eps \<Rightarrow> Inr (ep # eps)))"

definition blueprint_from_dict :: "pylib \<Rightarrow> json \<Rightarrow> exn + Blueprint" where
  "blueprint_from_dict lib data =
     (case data of
        JObject d \<Rightarrow>
          (let name = (let v = dict_get d ''name'' JNull
                       in if truthy v then v else JString DEFAULT_BLUEPRINT_NAME);
               summary = (let v = dict_get d ''summary'' JNull
                          in if truthy v then v else JString ''Generated MCP server'');
               endpoint_dicts = dict_get d ''endpoints'' (JArray [])
           in case py_iter endpoint_dicts of
                Inl e \<Rightarrow> Inl e
              | Inr items \<Rightarrow>
                  (case endpoint_specs lib items of
                     Inl e \<Rightarrow> Inl e
                   | Inr endpoint_list \<Rightarrow>
                       (case py_iter (dict_get d ''prerequisites'' (JArray [])) of
                          Inl e \<Rightarrow> Inl e
                        | Inr entries \<Rightarrow>
                            Inr \<lparr>Blueprint.name = name, summary = summary,
                                 endpoints = endpoint_list,
                                 prerequisites = map (py_str lib) entries\<rparr>)))
      | _ \<Rightarrow> Inl (AttributeError ''object has no attribute get''))"

text \<open>\<open>OpenAILLMClient._parse_response\<close>: only a \<open>JSONDecodeError\<close> is caught and raised
  again as a \<open>ValueError\<close> whose message ends with \<open>str(exc)\<close>.\<close>

definition parse_response :: "pylib \<Rightarrow> string \<Rightarrow> exn + Blueprint" where
  "parse_response lib response_text =
     (case json_loads lib response_text of
        Inl (JSONDecodeError exc) \<Rightarrow> Inl (ValueError (''Model response is not valid JSON: '' @ exc))
      | Inl e \<Rightarrow> Inl e
      | Inr data \<Rightarrow> blueprint_from_dict lib data)"

section \<open>orchestration/llm.py: the clients and the orchestrator\<close>

text \<open>
  The three kinds of \<open>LLMClient\<close>. An \<open>OpenAILLMClient\<close> holds its SDK client and its model
  name; the SDK client is the function from model and prompt to the text
  \<open>response.output[0].content[0].text\<close> of \<open>responses.create\<close>, or to the exception either
  step raises. A \<open>HeuristicLLMClient\<close> holds its name. Any other subclass is its
  \<open>generate_blueprint\<close> method.
\<close>

datatype LLMClient =
    OpenAILLMClient "string \<Rightarrow> string \<Rightarrow> exn + string" string
  | HeuristicLLMClient string
  | OtherLLMClient "string \<Rightarrow> exn + Blueprint"

text \<open>\<open>OpenAILLMClient.__init__\<close>, given the process environment and the SDK's
  constructor.\<close>

definition OpenAILLMClient_init ::
  "(string \<rightharpoonup> string) \<Rightarrow> (string \<Rightarrow> string \<Rightarrow> string \<Rightarrow> exn + string) \<Rightarrow> string \<Rightarrow> exn + LLMClient" where
  "OpenAILLMClient_init environ OpenAI model =
     (case environ ''OPENAI_API_KEY'' of
        None \<Rightarrow> Inl (RuntimeError ''OPENAI_API_KEY is not set'')
      | Some api_key \<Rightarrow>
          if api_key = [] then Inl (RuntimeError ''OPENAI_API_KEY is not set'')
          else Inr (OpenAILLMClient (OpenAI api_key) model))"

fun generate_blueprint :: "pylib \<Rightarrow> LLMClient \<Rightarrow> string \<Rightarrow> exn + Blueprint" where
  "generate_blueprint lib (OpenAILLMClient client model) prompt =
     (case client model prompt of
        Inl e \<Rightarrow> Inl e
      | Inr content \<Rightarrow> parse_response lib content)"
| "generate_blueprint lib (HeuristicLLMClient self_name) prompt =
     Inr (HeuristicLLMClient_generate_blueprint self_name prompt)"
| "generate_blueprint lib (OtherLLMClient generate) prompt = generate prompt"

record LLMOrchestrator =
  llm_client :: LLMClient

text \<open>\<open>LLMOrchestrator.__init__\<close>: \<open>llm_client or HeuristicLLMClient()\<close>. A client object
  is true in a Boolean context; only \<open>None\<close> gives way to the default.\<close>

definition LLMOrchestrator_init :: "LLMClient option \<Rightarrow> LLMOrchestrator" where
  "LLMOrchestrator_init llm_client_arg =
     \<lparr>llm_client = (case llm_client_arg of
                       None \<Rightarrow> HeuristicLLMClient DEFAULT_BLUEPRINT_NAME
                     | Some c \<Rightarrow> c)\<rparr>"

definition newline :: char where
  "newline = CHR 0x0A"

text \<open>\<open>sep.join(parts)\<close>.\<close>

fun py_join :: "string \<Rightarrow> string list \<Rightarrow> string" where
  "py_join sep [] = []"
| "py_join sep [x] = x"
| "py_join sep (x # y # ys) = x @ sep @ py_join sep (y # ys)"

definition prompt_preamble :: string where
  "prompt_preamble =
     ''You are an expert software engineer building Model Context Protocol (MCP) servers. '' @
     ''Given the following API documentation, extract the key REST endpoints and return a JSON '' @
     ''object with the fields: name (string), summary (string), endpoints (list of {name, method, path, description}), '' @
     ''and prerequisites (list of strings describing required auth or setup).''"

definition build_prompt :: "string list \<Rightarrow> string option \<Rightarrow> string" where
  "build_prompt documents title =
     (let joined = py_join [newline, newline] documents;
          prompt = prompt_preamble;
          prompt = (case title of
                      None \<Rightarrow> prompt
                    | Some t \<Rightarrow>
                        if t = [] then prompt
                        else prompt @ [newline] @ ''Documentation title: '' @ t)
      in prompt @ [newline, newline] @ ''Documentation:'' @ [newline] @ joined)"

definition health_check :: EndpointSpec where
  "health_check =
     \<lparr>EndpointSpec.name = JString ''health_check'', method' = JString ''GET'',
      path = JString ''/'',
      description = JString ''Fallback endpoint returning API availability information.''\<rparr>"

text \<open>\<open>LLMOrchestrator.build_blueprint\<close>. The result is what the caller sees: \<open>Inr\<close> the
  Blueprint returned, \<open>Inl\<close> an exception that leaves the method.\<close>

definition build_blueprint ::
  "pylib \<Rightarrow> LLMOrchestrator \<Rightarrow> string list \<Rightarrow> string option \<Rightarrow> exn + Blueprint" where
  "build_blueprint lib self documents title =
     (let prompt = build_prompt documents title;
          blueprint = (case generate_blueprint lib (llm_client self) prompt of
                         Inr b \<Rightarrow> b
                       | Inl e \<Rightarrow>
                           HeuristicLLMClient_generate_blueprint DEFAULT_BLUEPRINT_NAME prompt)
      in if endpoints blueprint = []
         then Inr (blueprint\<lparr>endpoints := endpoints blueprint @ [health_check]\<rparr>)
         else Inr blueprint)"

section \<open>A decoder for JSON texts\<close>

text \<open>
  A model of the standard library's \<open>json.loads\<close> on texts over the code points 0 to
  255, after CPython 3.11 and its C scanner: a scanner that cuts the text into tokens, and
  a parser that reads them with a stack of the containers still open. It gives
  \<^const>\<open>json_loads\<close> of \<^typ>\<open>pylib\<close> a value to run the response parser on concrete texts.

  What \<open>json.loads\<close> answers depends on two settings of the interpreter, which the decoder
  takes as arguments: \<open>budget\<close>, the number of nested calls the interpreter still allows
  where \<open>json.loads\<close> is called (\<open>sys.getrecursionlimit()\<close> less the depth of the caller),
  and \<open>max_digits\<close>, which is \<open>sys.get_int_max_str_digits()\<close> (0 for no limit). A call that
  would nest deeper than the budget raises \<open>RecursionError\<close>; its message says where.

  A string with a code point above 255, written with an escape, has no value in
  \<^typ>\<open>json\<close>: a text in which the parser reads one and meets no error is answered with
  \<^const>\<open>OtherException\<close>.
\<close>

definition dquote :: char where
  "dquote = CHR 0x22"

definition backslash :: char where
  "backslash = CHR 0x5C"

definition squote :: char where
  "squote = CHR 0x27"

definition is_digit :: "char \<Rightarrow> bool" where
  "is_digit c \<longleftrightarrow> 48 \<le> code c \<and> code c \<le> 57"

definition hex_val :: "char \<Rightarrow> nat option" where
  "hex_val c =
     (if 48 \<le> code c \<and> code c \<le> 57 then Some (code c - 48)
      else if 97 \<le> code c \<and> code c \<le> 102 then Some (code c - 87)
      else if 65 \<le> code c \<and> code c \<le> 70 then Some (code c - 55)
      else None)"

definition hex4 :: "char \<Rightarrow> char \<Rightarrow> char \<Rightarrow> char \<Rightarrow> nat option" where
  "hex4 a b c d =
     (case (hex_val a, hex_val b, hex_val c, hex_val d) of
        (Some w, Some x, Some y, Some z) \<Rightarrow> Some (((w * 16 + x) * 16 + y) * 16 + z)
      | _ \<Rightarrow> None)"

definition simple_escape :: "char \<Rightarrow> char option" where
  "simple_escape e =
     map_of [(dquote, dquote), (backslash, backslash), (CHR ''/'', CHR ''/''),
             (CHR ''b'', CHR 0x08), (CHR ''f'', CHR 0x0C), (CHR ''n'', CHR 0x0A),
             (CHR ''r'', CHR 0x0D), (CHR ''t'', CHR 0x09)] e"

text \<open>The content of a string literal, or that it holds a code point above 255, or the
  message and position of the error in it.\<close>

datatype str_result = StrOk string | StrUnrep | StrErr string nat

text \<open>The string scanner, from the character after the opening quote at \<open>begin\<close>: the
  result and the position after the closing quote.\<close>

fun scan_string :: "nat \<Rightarrow> nat \<Rightarrow> string \<Rightarrow> string \<Rightarrow> bool \<Rightarrow> str_result \<times> nat" where
  "scan_string begin pos [] acc ok = (StrErr ''Unterminated string starting at'' begin, pos)"
| "scan_string begin pos (c # cs) acc ok =
     (if c = dquote then ((if ok then StrOk (rev acc) else StrUnrep), Suc pos)
      else if c = backslash then
        (case cs of
           [] \<Rightarrow> (StrErr ''Unterminated string starting at'' begin, pos)
         | e # es \<Rightarrow>
             if e = CHR ''u'' then
               (case es of
                  h1 # h2 # h3 # h4 # x # xs \<Rightarrow>
                    (case hex4 h1 h2 h3 h4 of
                       None \<Rightarrow> (StrErr (''Invalid '' @ [backslash] @ ''uXXXX escape'') (Suc pos), pos)
                     | Some n \<Rightarrow>
                         if n < 256 then scan_string begin (pos + 6) (x # xs) (char_of n # acc) ok
                         else scan_string begin (pos + 6) (x # xs) acc False)
                | _ \<Rightarrow> (StrErr (''Invalid '' @ [backslash] @ ''uXXXX escape'') (Suc pos), pos))
             else
               (case simple_escape e of
                  None \<Rightarrow> (StrErr (''Invalid '' @ [backslash] @ ''escape'') pos, pos)
                | Some d \<Rightarrow> scan_string begin (pos + 2) es (d # acc) ok))
      else if code c \<le> 31 then (StrErr ''Invalid control character at'' pos, pos)
      else scan_string begin (Suc pos) cs (c # acc) ok)"

text \<open>The tokens. An \<open>int\<close> comes with the number of its digits; \<open>TConstant\<close> is one of the
  names \<open>NaN\<close>, \<open>Infinity\<close> and \<open>-Infinity\<close>; \<open>TAtom\<close> is any other value of one token.\<close>

datatype token =
    TLBrace | TRBrace | TLBracket | TRBracket | TComma | TColon
  | TString str_result
  | TAtom json
  | TInt int nat
  | TConstant pyfloat
  | TBad
  | TEnd

definition punct :: "char \<Rightarrow> token option" where
  "punct c =
     map_of [(CHR ''{'', TLBrace), (CHR ''}'', TRBrace), (CHR ''['', TLBracket),
             (CHR '']'', TRBracket), (CHR '','', TComma), (CHR '':'', TColon)] c"

definition digits_value :: "string \<Rightarrow> nat" where
  "digits_value ds = foldl (\<lambda>n d. 10 * n + (code d - 48)) 0 ds"

text \<open>The value of an exponent: an optional sign and digits.\<close>

definition exponent_value :: "string \<Rightarrow> int" where
  "exponent_value s =
     (case s of
        [] \<Rightarrow> 0
      | g # gs \<Rightarrow>
          if g = CHR ''-'' then - int (digits_value gs)
          else if g = CHR ''+'' then int (digits_value gs)
          else int (digits_value (g # gs)))"

text \<open>A number at the head of the text: its token and its length. An integer part alone
  is an \<open>int\<close>; with a fraction or an exponent the number is a float, whose digits are those
  of the integer part and of the fraction.\<close>

definition lex_number :: "string \<Rightarrow> (token \<times> nat) option" where
  "lex_number s =
     (let sign = (case s of [] \<Rightarrow> [] | c # r \<Rightarrow> if c = CHR ''-'' then [c] else []);
          s1 = drop (length sign) s
      in case s1 of
           [] \<Rightarrow> None
         | d # ds \<Rightarrow>
             if \<not> is_digit d then None
             else
               let ip = (if d = CHR ''0'' then [d] else d # takeWhile is_digit ds);
                   r1 = drop (length ip) s1;
                   frac = (case r1 of
                             p # f # fs \<Rightarrow>
                               if p = CHR ''.'' \<and> is_digit f then p # takeWhile is_digit (f # fs)
                               else []
                           | _ \<Rightarrow> []);
                   r2 = drop (length frac) r1;
                   ex = (case r2 of
                           [] \<Rightarrow> []
                         | e # es \<Rightarrow>
                             if e = CHR ''e'' \<or> e = CHR ''E'' then
                               (let sg = (case es of
                                            [] \<Rightarrow> []
                                          | g # gs \<Rightarrow>
                                              if g = CHR ''+'' \<or> g = CHR ''-'' then [g] else []);
                                    dg = takeWhile is_digit (drop (length sg) es)
                                in if dg = [] then [] else e # sg @ dg)
                             else [])
               in if frac = [] \<and> ex = []
                  then Some (TInt (if sign = [] then int (digits_value ip)
                                   else - int (digits_value ip)) (length ip),
                             length sign + length ip)
                  else Some (TAtom (JFloat (Decimal (sign \<noteq> []) (digits_value (ip @ tl frac))
                                              (exponent_value (tl ex) - int (length (tl frac))))),
                             length sign + length ip + length frac + length ex))"

text \<open>A literal name or a number at the head of the text: its token and its length.\<close>

definition lex_word :: "string \<Rightarrow> (token \<times> nat) option" where
  "lex_word s =
     (if take 4 s = ''null'' then Some (TAtom JNull, 4)
      else if take 4 s = ''true'' then Some (TAtom (JBool True), 4)
      else if take 5 s = ''false'' then Some (TAtom (JBool False), 5)
      else if take 3 s = ''NaN'' then Some (TConstant NaN, 3)
      else if take 8 s = ''Infinity'' then Some (TConstant (Infinity False), 8)
      else if take 9 s = ''-Infinity'' then Some (TConstant (Infinity True), 9)
      else lex_number s)"

text \<open>The tokens of a text with their positions. Scanning stops at a token no parser
  state accepts; the end of the text is a token of its own.\<close>

function lex :: "nat \<Rightarrow> string \<Rightarrow> (nat \<times> token) list" where
  "lex pos [] = [(pos, TEnd)]"
| "lex pos (c # cs) =
     (if c \<in> set [CHR '' '', CHR 0x09, CHR 0x0A, CHR 0x0D] then lex (Suc pos) cs
      else
        (case punct c of
           Some t \<Rightarrow> (pos, t) # lex (Suc pos) cs
         | None \<Rightarrow>
             if c = dquote then
               (case scan_string pos (Suc pos) cs [] True of
                  (StrErr m p, pos') \<Rightarrow> [(pos, TString (StrErr m p))]
                | (r, pos') \<Rightarrow> (pos, TString r) # lex pos' (drop (pos' - Suc pos) cs))
             else
               (case lex_word (c # cs) of
                  None \<Rightarrow> [(pos, TBad)]
                | Some (t, n) \<Rightarrow> (pos, t) # lex (pos + n) (drop (n - 1) cs))))"
  by pat_completeness auto
termination
  by (relation "measure (\<lambda>(pos, s). length s)") auto

text \<open>\<open>d[k] = v\<close> on the items of a dict: a key already there keeps its place.\<close>

definition dict_set :: "(string \<times> json) list \<Rightarrow> string \<Rightarrow> json \<Rightarrow> (string \<times> json) list" where
  "dict_set d k v =
     (if k \<in> fst ` set d then map (\<lambda>(k', v'). if k' = k then (k', v) else (k', v')) d
      else d @ [(k, v)])"

text \<open>A container still open: the elements of a list so far, or the items of a dict so
  far and the key last read.\<close>

datatype frame = FArray "json list" | FObject "(string \<times> json) list" string

text \<open>What the parser expects next.\<close>

datatype mode = MValue | MArrayFirst | MObjectFirst | MKey | MColon | MAfter | MDone json

text \<open>The parser has met an error of the text (message and position), or raises another
  exception, or goes on: with what it expects, the open containers, and whether every
  string read so far has a value.\<close>

datatype presult = PErr string nat | PRaise exn | PState mode "frame list" bool

text \<open>Decimal notation of a natural number.\<close>

fun show_nat :: "nat \<Rightarrow> string" where
  "show_nat n =
     (if n < 10 then [''0123456789'' ! n]
      else show_nat (n div 10) @ [''0123456789'' ! (n mod 10)])"

declare show_nat.simps [simp del]

text \<open>The \<open>RecursionError\<close> of a call that would nest deeper than the limit; \<open>what\<close> names
  the call.\<close>

definition recursion_error :: "string \<Rightarrow> presult" where
  "recursion_error what = PRaise (RecursionError (''maximum recursion depth exceeded'' @ what))"

definition in_call :: string where
  "in_call = '' while calling a Python object''"

text \<open>Raising a \<open>JSONDecodeError\<close> takes three nested calls: of the class, of its
  \<open>__init__\<close>, and of a method inside \<open>__init__\<close>. \<open>left\<close> is the number of nested calls still
  allowed where the error is raised.\<close>

definition raise_decode_error :: "nat \<Rightarrow> string \<Rightarrow> nat \<Rightarrow> presult" where
  "raise_decode_error left m p =
     (if left = 0 then recursion_error in_call
      else if left = 1 then recursion_error []
      else if left = 2 then recursion_error in_call
      else PErr m p)"

text \<open>The calls nested where the scanner works with the containers \<open>st\<close> open: those of
  \<open>json.loads\<close>, \<open>decode\<close>, \<open>raw_decode\<close> and the scanner, and one for each open container.
  The scanner raises its errors there, but for \<open>Expecting value\<close>, which \<open>raw_decode\<close> raises
  (three calls deep), and \<open>Extra data\<close>, which \<open>decode\<close> raises (two calls deep).\<close>

definition calls :: "frame list \<Rightarrow> nat" where
  "calls st = 4 + length st"

text \<open>\<open>int\<close> refuses a number of more than \<open>max_digits\<close> digits, with a \<open>ValueError\<close> that is
  not a \<open>JSONDecodeError\<close>.\<close>

definition digits_error :: "nat \<Rightarrow> nat \<Rightarrow> exn" where
  "digits_error max_digits n =
     ValueError (''Exceeds the limit ('' @ show_nat max_digits @
       '' digits) for integer string conversion: value has '' @ show_nat n @
       '' digits; use sys.set_int_max_str_digits() to increase the limit'')"

text \<open>A finished value goes into the innermost open container, or is the result.\<close>

fun complete :: "json \<Rightarrow> frame list \<Rightarrow> bool \<Rightarrow> presult" where
  "complete v [] ok = PState (MDone v) [] ok"
| "complete v (FArray items # st) ok = PState MAfter (FArray (items @ [v]) # st) ok"
| "complete v (FObject d k # st) ok = PState MAfter (FObject (dict_set d k v) k # st) ok"

text \<open>A token where a value is expected. Opening a container nests one call more, and so
  does the look-up of \<open>NaN\<close>, \<open>Infinity\<close> and \<open>-Infinity\<close>.\<close>

fun start_value :: "nat \<Rightarrow> nat \<Rightarrow> frame list \<Rightarrow> bool \<Rightarrow> nat \<Rightarrow> token \<Rightarrow> presult" where
  "start_value budget max_digits st ok pos (TAtom v) = complete v st ok"
| "start_value budget max_digits st ok pos (TInt i n) =
     (if 0 < max_digits \<and> max_digits < n then PRaise (digits_error max_digits n)
      else complete (JInt i) st ok)"
| "start_value budget max_digits st ok pos (TConstant f) =
     (if calls st < budget then complete (JFloat f) st ok else recursion_error in_call)"
| "start_value budget max_digits st ok pos (TString (StrOk s)) = complete (JString s) st ok"
| "start_value budget max_digits st ok pos (TString StrUnrep) = complete JNull st False"
| "start_value budget max_digits st ok pos (TString (StrErr m p)) =
     raise_decode_error (budget - calls st) m p"
| "start_value budget max_digits st ok pos TLBracket =
     (if calls st < budget then PState MArrayFirst (FArray [] # st) ok
      else recursion_error '' while decoding a JSON array from a unicode string'')"
| "start_value budget max_digits st ok pos TLBrace =
     (if calls st < budget then PState MObjectFirst (FObject [] [] # st) ok
      else recursion_error '' while decoding a JSON object from a unicode string'')"
| "start_value budget max_digits st ok pos t = raise_decode_error (budget - 3) ''Expecting value'' pos"

fun read_key :: "nat \<Rightarrow> frame list \<Rightarrow> bool \<Rightarrow> nat \<Rightarrow> token \<Rightarrow> presult" where
  "read_key budget (FObject d k # st) ok pos (TString (StrOk s)) =
     PState MColon (FObject d s # st) ok"
| "read_key budget st ok pos (TString StrUnrep) = PState MColon st False"
| "read_key budget st ok pos (TString (StrErr m p)) = raise_decode_error (budget - calls st) m p"
| "read_key budget st ok pos t =
     raise_decode_error (budget - calls st)
       ''Expecting property name enclosed in double quotes'' pos"

fun pstep :: "nat \<Rightarrow> nat \<Rightarrow> mode \<Rightarrow> frame list \<Rightarrow> bool \<Rightarrow> nat \<Rightarrow> token \<Rightarrow> presult" where
  "pstep budget max_digits MValue st ok pos t = start_value budget max_digits st ok pos t"
| "pstep budget max_digits MArrayFirst st ok pos t =
     (if t = TRBracket then complete (JArray []) (tl st) ok
      else start_value budget max_digits st ok pos t)"
| "pstep budget max_digits MObjectFirst st ok pos t =
     (if t = TRBrace then complete (JObject []) (tl st) ok else read_key budget st ok pos t)"
| "pstep budget max_digits MKey st ok pos t = read_key budget st ok pos t"
| "pstep budget max_digits MColon st ok pos t =
     (if t = TColon then PState MValue st ok
      else raise_decode_error (budget - calls st)
             (''Expecting '' @ [squote] @ '':'' @ [squote] @ '' delimiter'') pos)"
| "pstep budget max_digits MAfter (FArray items # st) ok pos t =
     (if t = TRBracket then complete (JArray items) st ok
      else if t = TComma then PState MValue (FArray items # st) ok
      else raise_decode_error (budget - calls (FArray items # st))
             (''Expecting '' @ [squote] @ '','' @ [squote] @ '' delimiter'') pos)"
| "pstep budget max_digits MAfter (FObject d k # st) ok pos t =
     (if t = TRBrace then complete (JObject d) st ok
      else if t = TComma then PState MKey (FObject d k # st) ok
      else raise_decode_error (budget - calls (FObject d k # st))
             (''Expecting '' @ [squote] @ '','' @ [squote] @ '' delimiter'') pos)"
| "pstep budget max_digits MAfter [] ok pos t = raise_decode_error (budget - 3) ''Expecting value'' pos"
| "pstep budget max_digits (MDone v) st ok pos t =
     (if t = TEnd then PState (MDone v) st ok else raise_decode_error (budget - 2) ''Extra data'' pos)"

fun parse_tokens :: "nat \<Rightarrow> nat \<Rightarrow> presult \<Rightarrow> (nat \<times> token) list \<Rightarrow> presult" where
  "parse_tokens budget max_digits r [] = r"
| "parse_tokens budget max_digits (PErr m p) ts = PErr m p"
| "parse_tokens budget max_digits (PRaise e) ts = PRaise e"
| "parse_tokens budget max_digits (PState md st ok) ((pos, t) # ts) =
     parse_tokens budget max_digits (pstep budget max_digits md st ok pos t) ts"

text \<open>\<open>str(exc)\<close> of a \<open>JSONDecodeError\<close> with message \<open>msg\<close> at position \<open>pos\<close> of \<open>doc\<close>.\<close>

definition errmsg :: "string \<Rightarrow> string \<Rightarrow> nat \<Rightarrow> string" where
  "errmsg msg doc pos =
     (let seen = take pos doc;
          lineno = length (filter (\<lambda>c. c = CHR 0x0A) seen) + 1;
          colno = length (takeWhile (\<lambda>c. c \<noteq> CHR 0x0A) (rev seen)) + 1
      in msg @ '': line '' @ show_nat lineno @ '' column '' @ show_nat colno @
         '' (char '' @ show_nat pos @ '')'')"

text \<open>\<open>json.loads(doc)\<close>. The scanner starts four calls deep; with a budget below four the
  call fails before the text is looked at.\<close>

definition decode_json :: "nat \<Rightarrow> nat \<Rightarrow> string \<Rightarrow> exn + json" where
  "decode_json budget max_digits doc =
     (if budget = 0 then Inl (RecursionError ''maximum recursion depth exceeded'')
      else if budget < 4 then Inl (RecursionError (''maximum recursion depth exceeded'' @ in_call))
      else
        case parse_tokens budget max_digits (PState MValue [] True) (lex 0 doc) of
          PErr m p \<Rightarrow> Inl (JSONDecodeError (errmsg m doc p))
        | PRaise e \<Rightarrow> Inl e
        | PState (MDone v) st ok \<Rightarrow>
            if ok then Inr v else Inl (OtherException ''value outside the model'')
        | PState md st ok \<Rightarrow> Inl (OtherException ''unfinished''))"

section \<open>ingestion/models.py\<close>

record Document =
  url :: string
  content :: string
  content_type :: string
  metadata :: "(string \<times> string) list"
  title :: "string option"

record Corpus =
  documents :: "Document list"

section \<open>ingestion/downloader.py\<close>

record CrawlConfig =
  max_pages :: int
  timeout :: int
  user_agent :: string
  allow_patterns :: "string list"
  deny_patterns :: "string list"

definition CrawlConfig_default :: CrawlConfig where
  "CrawlConfig_default =
     \<lparr>max_pages = 20, timeout = 10, user_agent = ''mcp-builder/0.1'',
      allow_patterns = [''.*''], deny_patterns = []\<rparr>"

text \<open>What \<open>session.get(url, timeout=...)\<close> followed by \<open>response.raise_for_status()\<close>
  comes to: a \<open>requests.RequestException\<close>, another exception, or a response with its
  \<open>Content-Type\<close> header, if it has one, and its text.\<close>

datatype fetch_result =
    RequestException
  | Raised exn
  | Response "string option" string

text \<open>
  The libraries and the network the crawler calls, as parameters:
  \<^item> \<open>urlparse_netloc u\<close> is \<open>urlparse(u).netloc\<close>, or the exception \<open>urlparse\<close> raises;
  \<^item> \<open>hostname_of n\<close> is the \<open>hostname\<close> that \<open>urlparse\<close> derives from the netloc \<open>n\<close>;
  \<^item> \<open>re_fullmatch p u\<close> says whether \<open>re.fullmatch(p, u)\<close> is a match, or is the exception
    raised for a pattern that does not compile;
  \<^item> \<open>session_get w u t a\<close> fetches \<open>u\<close> with timeout \<open>t\<close> and user agent \<open>a\<close> in the state
    \<open>w\<close> of the network (and of the session), and gives the next state;
  \<^item> \<open>soup html\<close> is what \<open>_parse_html\<close> reads from the parsed page: the stripped title,
    the unescaped text without scripts and styles, and the \<open>href\<close> of every anchor left,
    in document order;
  \<^item> \<open>urljoin\<close> is \<open>urllib.parse.urljoin\<close>;
  \<^item> \<open>set_iter\<close> is the order in which a \<open>for\<close> loop runs through a set of strings.
\<close>

record 'w crawl_env =
  urlparse_netloc :: "string \<Rightarrow> exn + string"
  hostname_of :: "string \<Rightarrow> string option"
  re_fullmatch :: "string \<Rightarrow> string \<Rightarrow> exn + bool"
  session_get :: "'w \<Rightarrow> string \<Rightarrow> int \<Rightarrow> string \<Rightarrow> fetch_result \<times> 'w"
  soup :: "string \<Rightarrow> exn + (string option \<times> string \<times> string list)"
  urljoin :: "string \<Rightarrow> string \<Rightarrow> exn + string"
  set_iter :: "string fset \<Rightarrow> string list"

record DocumentationCrawler =
  start_url :: string
  config :: CrawlConfig
  allowed_netloc :: string

text \<open>\<open>DocumentationCrawler.__init__\<close>. The session, made on first use, is part of the
  state of the network.\<close>

definition DocumentationCrawler_init ::
  "'w crawl_env \<Rightarrow> string \<Rightarrow> CrawlConfig option \<Rightarrow> exn + DocumentationCrawler" where
  "DocumentationCrawler_init env start config_arg =
     (case urlparse_netloc env start of
        Inl e \<Rightarrow> Inl e
      | Inr netloc \<Rightarrow>
          Inr \<lparr>start_url = start,
               config = (case config_arg of None \<Rightarrow> CrawlConfig_default | Some c \<Rightarrow> c),
               allowed_netloc = netloc\<rparr>)"

text \<open>\<open>any(re.fullmatch(pattern, url) for pattern in patterns)\<close>: the patterns are tried in
  order up to the first match.\<close>

fun any_fullmatch :: "'w crawl_env \<Rightarrow> string list \<Rightarrow> string \<Rightarrow> exn + bool" where
  "any_fullmatch env [] u = Inr False"
| "any_fullmatch env (p # ps) u =
     (case re_fullmatch env p u of
        Inl e \<Rightarrow> Inl e
      | Inr matched \<Rightarrow> if matched then Inr True else any_fullmatch env ps u)"

text \<open>\<open>DocumentationCrawler._url_allowed\<close>, the scope check.\<close>

definition url_allowed :: "'w crawl_env \<Rightarrow> DocumentationCrawler \<Rightarrow> string \<Rightarrow> exn + bool" where
  "url_allowed env self u =
     (case urlparse_netloc env u of
        Inl e \<Rightarrow> Inl e
      | Inr netloc \<Rightarrow>
          if netloc \<noteq> allowed_netloc self then Inr False
          else
            (case (if allow_patterns (config self) \<noteq> []
                   then any_fullmatch env (allow_patterns (config self)) u
                   else Inr True) of
               Inl e \<Rightarrow> Inl e
             | Inr allowed \<Rightarrow>
                 if \<not> allowed then Inr False
                 else
                   (case any_fullmatch env (deny_patterns (config self)) u of
                      Inl e \<Rightarrow> Inl e
                    | Inr denied \<Rightarrow> if denied then Inr False else Inr True)))"

text \<open>The loop of \<open>_parse_html\<close> over the anchors.\<close>

fun collect_links ::
  "'w crawl_env \<Rightarrow> DocumentationCrawler \<Rightarrow> string \<Rightarrow> string list \<Rightarrow> string fset \<Rightarrow> exn + string fset" where
  "collect_links env self u [] links = Inr links"
| "collect_links env self u (href # hrefs) links =
     (case urljoin env u href of
        Inl e \<Rightarrow> Inl e
      | Inr absolute \<Rightarrow>
          if take 4 absolute = ''http'' then
            (case url_allowed env self absolute of
               Inl e \<Rightarrow> Inl e
             | Inr allowed \<Rightarrow>
                 collect_links env self u hrefs (if allowed then finsert absolute links else links))
          else collect_links env self u hrefs links)"

definition parse_html ::
  "'w crawl_env \<Rightarrow> DocumentationCrawler \<Rightarrow> string \<Rightarrow> string \<Rightarrow> exn + (Document \<times> string fset)" where
  "parse_html env self u html =
     (case soup env html of
        Inl e \<Rightarrow> Inl e
      | Inr (page_title, page_text, hrefs) \<Rightarrow>
          (case collect_links env self u hrefs {||} of
             Inl e \<Rightarrow> Inl e
           | Inr links \<Rightarrow>
               Inr (\<lparr>url = u, content = page_text, content_type = ''text/html'',
                     metadata = [(''source'', u)], title = page_title\<rparr>, links)))"

text \<open>The variables of \<open>crawl\<close>, the state of the network, and the URLs passed to
  \<open>session.get\<close> so far, in order.\<close>

record 'w crawl_state =
  visited :: "string fset"
  docs :: "Document list"
  q :: "string list"
  world :: 'w
  fetched :: "string list"

text \<open>One run of the loop body for the URL \<open>u\<close> just taken from the queue: the next state,
  or the exception that leaves \<open>crawl\<close> with the state it is raised in.\<close>

definition crawl_iteration ::
  "'w crawl_env \<Rightarrow> DocumentationCrawler \<Rightarrow> string \<Rightarrow> 'w crawl_state \<Rightarrow>
     (exn \<times> 'w crawl_state) + 'w crawl_state" where
  "crawl_iteration env self u st0 =
     (if u |\<in>| visited st0 then Inr st0
      else
        let st1 = st0\<lparr>visited := finsert u (visited st0)\<rparr> in
        (case url_allowed env self u of
           Inl e \<Rightarrow> Inl (e, st1)
         | Inr allowed \<Rightarrow>
             if \<not> allowed then Inr st1
             else
               (case session_get env (world st1) u (timeout (config self))
                       (user_agent (config self)) of
                  (result, w) \<Rightarrow>
                    let st2 = st1\<lparr>world := w, fetched := fetched st1 @ [u]\<rparr> in
                    (case result of
                       RequestException \<Rightarrow> Inr st2
                     | Raised e \<Rightarrow> Inl (e, st2)
                     | Response header body \<Rightarrow>
                         let ctype = takeWhile (\<lambda>c. c \<noteq> CHR '';'')
                                       (case header of None \<Rightarrow> ''text/plain'' | Some h \<Rightarrow> h)
                         in if take 9 ctype = ''text/html'' then
                              (case parse_html env self u body of
                                 Inl e \<Rightarrow> Inl (e, st2)
                               | Inr (document, discovered) \<Rightarrow>
                                   Inr (st2\<lparr>docs := docs st2 @ [document],
                                            q := q st2 @ filter (\<lambda>link. link |\<notin>| visited st2)
                                                          (set_iter env discovered)\<rparr>))
                            else if ctype = ''application/json'' then
                              Inr (st2\<lparr>docs := docs st2 @
                                          [\<lparr>url = u, content = body, content_type = ctype,
                                            metadata = [], title = None\<rparr>]\<rparr>)
                            else Inr st2))))"

text \<open>The loop condition: \<open>not q.empty() and len(visited) < self.config.max_pages\<close>.\<close>

definition crawl_guard :: "DocumentationCrawler \<Rightarrow> 'w crawl_state \<Rightarrow> bool" where
  "crawl_guard self st \<longleftrightarrow> q st \<noteq> [] \<and> int (fcard (visited st)) < max_pages (config self)"

lemma crawl_iteration_progress:
  assumes "crawl_iteration env self u st = Inr st'"
  shows "(visited st' = visited st \<and> q st' = q st) \<or> fcard (visited st') = Suc (fcard (visited st))"
proof (cases "u |\<in>| visited st")
  case True
  with assms show ?thesis by (simp add: crawl_iteration_def)
next
  case False
  then have "fcard (finsert u (visited st)) = Suc (fcard (visited st))"
    by (simp add: fcard_finsert_if)
  moreover from assms False have "visited st' = finsert u (visited st)"
    by (auto simp: crawl_iteration_def Let_def
        split: sum.splits if_splits prod.splits fetch_result.splits)
  ultimately show ?thesis by simp
qed

text \<open>The loop of \<open>crawl\<close> from a state: the state it ends in, or the exception that
  leaves it.\<close>

function crawl_loop ::
  "'w crawl_env \<Rightarrow> DocumentationCrawler \<Rightarrow> 'w crawl_state \<Rightarrow>
     (exn \<times> 'w crawl_state) + 'w crawl_state" where
  "crawl_loop env self st =
     (if crawl_guard self st
      then (case crawl_iteration env self (hd (q st)) (st\<lparr>q := tl (q st)\<rparr>) of
              Inl x \<Rightarrow> Inl x
            | Inr st' \<Rightarrow> crawl_loop env self st')
      else Inr st)"
  by pat_completeness auto
termination
proof (relation "measures
    [\<lambda>(env, self, st). nat (max_pages (config self) - int (fcard (visited st))),
     \<lambda>(env, self, st). length (q st)]", goal_cases)
  case 1
  show ?case by simp
next
  case (2 env self st st')
  from crawl_iteration_progress [OF 2(2)] 2(1)
  show ?case
    by (cases "q st") (auto simp: crawl_guard_def)
qed

text \<open>The states the loop goes through: the state at each test of the loop condition and,
  when an exception leaves the loop, the state it is raised in.\<close>

function crawl_states ::
  "'w crawl_env \<Rightarrow> DocumentationCrawler \<Rightarrow> 'w crawl_state \<Rightarrow> 'w crawl_state list" where
  "crawl_states env self st =
     st # (if crawl_guard self st
           then (case crawl_iteration env self (hd (q st)) (st\<lparr>q := tl (q st)\<rparr>) of
                   Inl (e, st') \<Rightarrow> [st']
                 | Inr st' \<Rightarrow> crawl_states env self st')
           else [])"
  by pat_completeness auto
termination
proof (relation "measures
    [\<lambda>(env, self, st). nat (max_pages (config self) - int (fcard (visited st))),
     \<lambda>(env, self, st). length (q st)]", goal_cases)
  case 1
  show ?case by simp
next
  case (2 env self st st')
  from crawl_iteration_progress [OF 2(2)] 2(1)
  show ?case
    by (cases "q st") (auto simp: crawl_guard_def)
qed

declare crawl_loop.simps [simp del]
declare crawl_states.simps [simp del]

definition crawl_init :: "DocumentationCrawler \<Rightarrow> 'w \<Rightarrow> 'w crawl_state" where
  "crawl_init self w = \<lparr>visited = {||}, docs = [], q = [start_url self], world = w, fetched = []\<rparr>"

text \<open>\<open>DocumentationCrawler.crawl\<close>, started in the state \<open>w\<close> of the network: the Corpus
  returned or the exception raised, and the last state of the loop.\<close>

definition crawl ::
  "'w crawl_env \<Rightarrow> DocumentationCrawler \<Rightarrow> 'w \<Rightarrow> (exn + Corpus) \<times> 'w crawl_state" where
  "crawl env self w =
     (case crawl_loop env self (crawl_init self w) of
        Inl (e, st) \<Rightarrow> (Inl e, st)
      | Inr st \<Rightarrow> (Inr \<lparr>documents = docs st\<rparr>, st))"

section \<open>Definitions used in the statements\<close>

text \<open>A string in which no two underscores are adjacent.\<close>

fun no_double_underscore :: "string \<Rightarrow> bool" where
  "no_double_underscore [] = True"
| "no_double_underscore [c] = True"
| "no_double_underscore (c # d # cs) =
     (\<not> (c = CHR ''_'' \<and> d = CHR ''_'') \<and> no_double_underscore (d # cs))"

text \<open>A character that no match of the endpoint pattern can run over before its path
  begins: not a slash, not whitespace, and not a letter of a method name.\<close>

definition stops_match :: "char \<Rightarrow> bool" where
  "stops_match x \<longleftrightarrow> x \<noteq> CHR ''/'' \<and> \<not> is_space x \<and>
     (\<forall>p \<in> set ''GETPOSTPUTPATCHDELETEOPTIONSHEAD''. \<not> eq_ignorecase p x)"

text \<open>Whether a client is the remote one.\<close>

fun is_remote :: "LLMClient \<Rightarrow> bool" where
  "is_remote (OpenAILLMClient client model) = True"
| "is_remote c = False"

text \<open>\<open>urlparse(u).hostname\<close>.\<close>

definition url_host :: "'w crawl_env \<Rightarrow> string \<Rightarrow> exn + string option" where
  "url_host env u =
     (case urlparse_netloc env u of Inl e \<Rightarrow> Inl e | Inr netloc \<Rightarrow> Inr (hostname_of env netloc))"

subsection \<open>Examples\<close>

text \<open>A library whose \<open>json.loads\<close> is \<^const>\<open>decode_json\<close> in an interpreter with its default
  limits, a recursion limit of 1000 and 4300 digits, called twenty calls deep. The examples
  hold strings only, so \<open>repr\<close> is never called; a fixed text stands for it.\<close>

definition example_lib :: pylib where
  "example_lib = \<lparr>json_loads = decode_json 980 4300, py_repr = (\<lambda>v. ''<object>'')\<rparr>"

text \<open>A generation strategy that always raises.\<close>

definition failing_client :: LLMClient where
  "failing_client = OtherLLMClient (\<lambda>prompt. Inl (RuntimeError ''service unavailable''))"

text \<open>
  A site of two pages. The index page is HTML and links to \<open>/a\<close>, to \<open>/b\<close> and to another
  host; \<open>/a\<close> is a JSON document; every other fetch fails. Patterns are \<open>.*\<close> or literal
  URLs; a URL is \<open>http://\<close>, a host and a path.
\<close>

definition example_pages :: "string \<Rightarrow> fetch_result" where
  "example_pages u =
     (if u = ''http://docs.example/'' then Response (Some ''text/html; charset=utf-8'') ''index''
      else if u = ''http://docs.example/a'' then Response (Some ''application/json'') ''{}''
      else RequestException)"

definition example_env :: "unit crawl_env" where
  "example_env =
     \<lparr>urlparse_netloc = (\<lambda>u. Inr (takeWhile (\<lambda>c. c \<noteq> CHR ''/'') (drop 7 u))),
      hostname_of = (\<lambda>n. Some n),
      re_fullmatch = (\<lambda>p u. Inr (p = ''.*'' \<or> p = u)),
      session_get = (\<lambda>w u t a. (example_pages u, w)),
      soup = (\<lambda>html. Inr (Some ''Docs'', html,
                if html = ''index'' then [''/a'', ''/b'', ''http://other.example/x''] else [])),
      urljoin = (\<lambda>base href. Inr (if take 4 href = ''http'' then href
                                    else ''http://docs.example'' @ href)),
      set_iter = (\<lambda>links. filter (\<lambda>u. u |\<in>| links)
                   [''http://docs.example/a'', ''http://docs.example/b'',
                    ''http://other.example/x''])\<rparr>"

definition example_crawler :: "int \<Rightarrow> string list \<Rightarrow> DocumentationCrawler" where
  "example_crawler cap deny =
     \<lparr>start_url = ''http://docs.example/'',
      config = CrawlConfig_default\<lparr>max_pages := cap, deny_patterns := deny\<rparr>,
      allowed_netloc = ''docs.example''\<rparr>"

section \<open>Evaluation\<close>

lemmas char_eval = code_def py_lower_char_def py_lower_def ascii_upper_char_def ascii_upper_def
  is_az09_def is_space_def is_word_def is_path_char_def eq_ignorecase_def

lemmas heuristic_eval = char_eval py_strip_def slugify_def match_space_path_def
  endpoint_pattern_match_def extract_endpoints_def

lemmas json_eval = dquote_def backslash_def squote_def is_digit_def hex_val_def hex4_def
  simple_escape_def punct_def digits_value_def exponent_value_def lex_number_def lex_word_def
  dict_set_def recursion_error_def in_call_def raise_decode_error_def calls_def
  digits_error_def errmsg_def decode_json_def code_def

lemmas crawl_eval = example_env_def example_crawler_def example_pages_def CrawlConfig_default_def
  crawl_def crawl_init_def crawl_guard_def crawl_iteration_def url_allowed_def parse_html_def
  fcard_finsert_if fcard_fempty

lemma show_nat_digit: "n < 10 \<Longrightarrow> show_nat n = [''0123456789'' ! n]"
  by (simp add: show_nat.simps)

section \<open>The heuristic extractor\<close>

subsection \<open>slugify and its specification\<close>

lemma replace_runs_in_class:
  "C c \<Longrightarrow> replace_runs C (c # cs) = CHR ''_'' # replace_runs C (dropWhile C cs)"
  by (induction cs arbitrary: c) auto

lemma replace_runs_not_in_class:
  "\<not> C c \<Longrightarrow> replace_runs C (c # cs) = c # replace_runs C cs"
  by (cases cs) auto

lemma re_sub_class_plus_replace_runs:
  "re_sub_class_plus C ''_'' s = replace_runs C s"
proof (induction C "''_''" s rule: re_sub_class_plus.induct)
  case (1 C)
  show ?case by simp
next
  case (2 C c cs)
  show ?case
  proof (cases "C c")
    case True
    with 2 show ?thesis by (simp add: replace_runs_in_class)
  next
    case False
    with 2 show ?thesis by (simp add: replace_runs_not_in_class)
  qed
qed

lemma dropWhile_head: "dropWhile C cs = d # ds \<Longrightarrow> \<not> C d"
  by (metis dropWhile_eq_Cons_conv)

lemma replace_runs_no_double:
  assumes u: "C (CHR ''_'')"
  shows "no_double_underscore (replace_runs C s)"
proof (induction s rule: length_induct)
  case (1 s)
  show ?case
  proof (cases s)
    case Nil
    then show ?thesis by simp
  next
    case (Cons c cs)
    show ?thesis
    proof (cases "C c")
      case True
      have "length (dropWhile C cs) < length s"
        using Cons length_dropWhile_le [of C cs] by simp
      with 1 have ih: "no_double_underscore (replace_runs C (dropWhile C cs))" by blast
      show ?thesis
      proof (cases "dropWhile C cs")
        case Nil
        with True have "replace_runs C (c # cs) = ''_''"
          by (simp only: replace_runs_in_class replace_runs.simps)
        with \<open>s = c # cs\<close> show ?thesis by simp
      next
        case (Cons d ds)
        then have "\<not> C d" by (rule dropWhile_head)
        with u have "replace_runs C (d # ds) = d # replace_runs C ds" and "d \<noteq> CHR ''_''"
          by (auto simp: replace_runs_not_in_class)
        with ih Cons True \<open>s = c # cs\<close> show ?thesis
          by (simp add: replace_runs_in_class)
      qed
    next
      case False
      with u have ne: "c \<noteq> CHR ''_''" by auto
      from 1 Cons have ih: "no_double_underscore (replace_runs C cs)" by simp
      from False Cons have "replace_runs C s = c # replace_runs C cs"
        by (simp add: replace_runs_not_in_class)
      with ih ne show ?thesis by (cases "replace_runs C cs") auto
    qed
  qed
qed

lemma re_sub_underscores_id:
  "no_double_underscore s \<Longrightarrow> re_sub_class_plus (\<lambda>c. c = CHR ''_'') ''_'' s = s"
proof (induction s rule: no_double_underscore.induct)
  case 1
  show ?case by simp
next
  case (2 c)
  show ?case by simp
next
  case (3 c d cs)
  then show ?case by auto
qed

lemma dropWhile_underscore:
  "dropWhile (\<lambda>c. c \<in> set ''_'') s = strip_leading_underscores s"
  by (induction s) auto

lemma py_strip_underscore:
  "py_strip ''_'' s = rev (strip_leading_underscores (rev (strip_leading_underscores s)))"
  unfolding py_strip_def dropWhile_underscore ..

lemma second_sub_is_identity:
  "re_sub_class_plus (\<lambda>c. c = CHR ''_'') ''_''
      (re_sub_class_plus (\<lambda>c. \<not> is_az09 c) ''_'' s)
    = replace_runs (\<lambda>c. \<not> is_az09 c) s"
proof -
  have "\<not> is_az09 (CHR ''_'')" by (simp add: is_az09_def code_def)
  then have "no_double_underscore (replace_runs (\<lambda>c. \<not> is_az09 c) s)"
    by (rule replace_runs_no_double)
  then show ?thesis
    unfolding re_sub_class_plus_replace_runs [of "\<lambda>c. \<not> is_az09 c"]
    by (rule re_sub_underscores_id)
qed

text \<open>
  C9. For every input string, \<open>slugify\<close> computes what its specification says: the
  lowercased input with every maximal run of characters outside \<open>[a-z0-9]\<close> replaced by one
  underscore, leading and trailing underscores stripped, and \<open>endpoint\<close> when nothing is
  left. In particular \<open>slugify("GET /users/{id}")\<close> is \<open>get_users_id\<close>.
\<close>

theorem slugify_meets_spec:
  "slugify s = slugify_spec s \<and> slugify ''GET /users/{id}'' = ''get_users_id''"
proof
  show "slugify s = slugify_spec s"
    unfolding slugify_def slugify_spec_def Let_def py_strip_underscore second_sub_is_identity
    by simp
  show "slugify ''GET /users/{id}'' = ''get_users_id''"
    by (simp add: heuristic_eval)
qed

subsection \<open>extract_endpoints\<close>

text \<open>
  C8. On the text \<open>GET /users POST /users DELETE /users/{id}\<close>, \<open>extract_endpoints\<close> returns
  exactly three entries, in order of appearance. A repeated match gives a repeated entry, and
  in general the entries are the matches of the pattern, one for one and in order, with the
  method in upper case.
\<close>

theorem extract_endpoints_in_order:
  "extract_endpoints ''GET /users POST /users DELETE /users/{id}'' =
     [\<lparr>EndpointSpec.name = JString ''get_users'', method' = JString ''GET'',
       path = JString ''/users'',
       description = JString ''Auto-detected endpoint for GET /users''\<rparr>,
      \<lparr>EndpointSpec.name = JString ''post_users'', method' = JString ''POST'',
       path = JString ''/users'',
       description = JString ''Auto-detected endpoint for POST /users''\<rparr>,
      \<lparr>EndpointSpec.name = JString ''delete_users_id'', method' = JString ''DELETE'',
       path = JString ''/users/{id}'',
       description = JString ''Auto-detected endpoint for DELETE /users/{id}''\<rparr>] \<and>
   map (\<lambda>e. (method' e, path e)) (extract_endpoints ''GET /a get /a'') =
     [(JString ''GET'', JString ''/a''), (JString ''GET'', JString ''/a'')] \<and>
   map (\<lambda>e. (method' e, path e)) (extract_endpoints s) =
     map (\<lambda>(m, p). (JString (ascii_upper m), JString p)) (finditer s)"
proof (intro conjI)
  show "map (\<lambda>e. (method' e, path e)) (extract_endpoints s) =
     map (\<lambda>(m, p). (JString (ascii_upper m), JString p)) (finditer s)"
    by (simp add: extract_endpoints_def Let_def case_prod_unfold)
qed (simp_all add: heuristic_eval)

text \<open>
  C10. The pattern is not anchored at a word boundary: in \<open>BUDGET /plans\<close> the method name
  occurs only as the end of a longer word, and \<open>extract_endpoints\<close> returns the endpoint
  \<open>GET /plans\<close>.
\<close>

theorem extract_endpoints_inside_word:
  "extract_endpoints ''BUDGET /plans'' =
     [\<lparr>EndpointSpec.name = JString ''get_plans'', method' = JString ''GET'',
       path = JString ''/plans'',
       description = JString ''Auto-detected endpoint for GET /plans''\<rparr>]"
  by (simp add: heuristic_eval)

subsection \<open>Where a match can begin\<close>

lemma match_literal_shape:
  "match_literal v s = Some (m, rest) \<Longrightarrow>
     s = m @ rest \<and> (\<forall>c \<in> set m. \<exists>p \<in> set v. eq_ignorecase p c)"
proof (induction v s arbitrary: m rule: match_literal.induct)
  case (3 p ps c cs)
  then show ?case
    by (fastforce split: if_splits option.splits)
qed auto

lemma match_space_path_shape:
  assumes "match_space_path s = Some (p, rest)"
  shows "\<exists>cs. s = takeWhile is_space s @ CHR ''/'' # cs"
proof -
  from assms obtain cs where "dropWhile is_space s = CHR ''/'' # cs"
    by (auto simp: match_space_path_def split: if_splits list.splits)
  then have "takeWhile is_space s @ CHR ''/'' # cs = s"
    by (metis takeWhile_dropWhile_id)
  then show ?thesis by metis
qed

lemma match_alternatives_shape:
  "match_alternatives vs s = Some r \<Longrightarrow>
     \<exists>pre cs. s = pre @ CHR ''/'' # cs \<and>
       (\<forall>c \<in> set pre. is_space c \<or> (\<exists>v \<in> set vs. \<exists>p \<in> set v. eq_ignorecase p c))"
proof (induction vs)
  case Nil
  then show ?case by simp
next
  case (Cons v vs)
  show ?case
  proof (cases "match_literal v s")
    case None
    with Cons obtain pre cs where "s = pre @ CHR ''/'' # cs"
      and "\<forall>c \<in> set pre. is_space c \<or> (\<exists>v \<in> set vs. \<exists>p \<in> set v. eq_ignorecase p c)"
      by auto
    then show ?thesis by fastforce
  next
    case (Some a)
    obtain m rest where a: "a = (m, rest)" by (cases a)
    show ?thesis
    proof (cases "match_space_path rest")
      case None
      with Cons Some a obtain pre cs where "s = pre @ CHR ''/'' # cs"
        and "\<forall>c \<in> set pre. is_space c \<or> (\<exists>v \<in> set vs. \<exists>p \<in> set v. eq_ignorecase p c)"
        by auto
      then show ?thesis by fastforce
    next
      case (Some b)
      obtain p rest' where "b = (p, rest')" by (cases b)
      with Some obtain cs where r: "rest = takeWhile is_space rest @ CHR ''/'' # cs"
        using match_space_path_shape by blast
      from \<open>match_literal v s = Some a\<close> a
      have s: "s = m @ rest" and m: "\<forall>c \<in> set m. \<exists>p \<in> set v. eq_ignorecase p c"
        using match_literal_shape by blast+
      have "s = (m @ takeWhile is_space rest) @ CHR ''/'' # cs"
        using s r by simp
      moreover have "\<forall>c \<in> set (m @ takeWhile is_space rest).
          is_space c \<or> (\<exists>v' \<in> set (v # vs). \<exists>p \<in> set v'. eq_ignorecase p c)"
        using m by (auto dest: set_takeWhileD)
      ultimately show ?thesis by blast
    qed
  qed
qed

lemma no_match_before_stop:
  assumes "CHR ''/'' \<notin> set a" and "stops_match x"
  shows "endpoint_pattern_match (a @ x # b) = None"
proof (rule ccontr)
  assume "endpoint_pattern_match (a @ x # b) \<noteq> None"
  then obtain r where "match_alternatives
      [''GET'', ''POST'', ''PUT'', ''PATCH'', ''DELETE'', ''OPTIONS'', ''HEAD''] (a @ x # b) = Some r"
    by (auto simp: endpoint_pattern_match_def)
  from match_alternatives_shape [OF this] obtain pre cs where
    eq: "a @ x # b = pre @ CHR ''/'' # cs" and
    pre: "\<forall>c \<in> set pre. is_space c \<or>
            (\<exists>p \<in> set ''GETPOSTPUTPATCHDELETEOPTIONSHEAD''. eq_ignorecase p c)"
    by auto
  from eq have "(a @ [x]) @ b = pre @ CHR ''/'' # cs" by simp
  then obtain us where
    "(a @ [x] = pre @ us \<and> us @ b = CHR ''/'' # cs) \<or>
     (a @ [x] @ us = pre \<and> b = us @ CHR ''/'' # cs)"
    using append_eq_append_conv2 [of "a @ [x]" b pre "CHR ''/'' # cs"] by auto
  then have "x \<in> set pre"
  proof
    assume h: "a @ [x] = pre @ us \<and> us @ b = CHR ''/'' # cs"
    show ?thesis
    proof (cases us)
      case Nil
      with h have "pre = a @ [x]" by simp
      then show ?thesis by simp
    next
      case (Cons u us')
      with h have "u = CHR ''/''" by simp
      with Cons h have "CHR ''/'' \<in> set (a @ [x])" by simp
      with assms show ?thesis by (simp add: stops_match_def)
    qed
  next
    assume "a @ [x] @ us = pre \<and> b = us @ CHR ''/'' # cs"
    then show ?thesis by auto
  qed
  with pre assms(2) show False by (auto simp: stops_match_def)
qed

lemma finditer_skip:
  assumes "CHR ''/'' \<notin> set a" and "stops_match x"
  shows "finditer (a @ x # b) = finditer b"
  using assms(1)
proof (induction a)
  case Nil
  from no_match_before_stop [of "[]" x b] assms(2) show ?case by simp
next
  case (Cons c a)
  then have "CHR ''/'' \<notin> set (c # a)" by simp
  from no_match_before_stop [OF this assms(2), of b] Cons show ?case by simp
qed

text \<open>The instruction block of the prompt holds no match, and none begins in it: it has
  no slash and ends with a full stop.\<close>

lemma finditer_after_preamble: "finditer (prompt_preamble @ s) = finditer s"
proof -
  have p: "prompt_preamble = butlast prompt_preamble @ [CHR ''.'']"
    by (simp add: prompt_preamble_def)
  have "CHR ''/'' \<notin> set (butlast prompt_preamble)"
    by (simp add: prompt_preamble_def)
  moreover have "stops_match (CHR ''.'')"
    by (simp add: stops_match_def char_eval)
  ultimately have "finditer (butlast prompt_preamble @ CHR ''.'' # s) = finditer s"
    by (rule finditer_skip)
  with p show ?thesis by (metis append.assoc append_Cons append_Nil)
qed

lemma extract_endpoints_after_preamble:
  "extract_endpoints (prompt_preamble @ s) = extract_endpoints s"
  by (simp add: extract_endpoints_def finditer_after_preamble)

lemma heuristic_on_bare_prompt: "extract_endpoints (build_prompt [] None) = []"
proof -
  have "build_prompt [] None = prompt_preamble @ ([newline, newline] @ ''Documentation:'' @ [newline])"
    by (simp add: build_prompt_def)
  then have "extract_endpoints (build_prompt [] None) =
      extract_endpoints ([newline, newline] @ ''Documentation:'' @ [newline])"
    by (simp only: extract_endpoints_after_preamble)
  also have "\<dots> = []"
    by (simp add: newline_def heuristic_eval)
  finally show ?thesis .
qed

lemma example_prompt_endpoints:
  "extract_endpoints (build_prompt [''POST /a''] (Some ''GET /t'')) =
     [\<lparr>EndpointSpec.name = JString ''get_t'', method' = JString ''GET'',
       path = JString ''/t'', description = JString ''Auto-detected endpoint for GET /t''\<rparr>,
      \<lparr>EndpointSpec.name = JString ''post_a'', method' = JString ''POST'',
       path = JString ''/a'', description = JString ''Auto-detected endpoint for POST /a''\<rparr>]"
proof -
  have "build_prompt [''POST /a''] (Some ''GET /t'') =
      prompt_preamble @ ([newline] @ ''Documentation title: GET /t'' @ [newline, newline] @
        ''Documentation:'' @ [newline] @ ''POST /a'')"
    by (simp add: build_prompt_def)
  then have "extract_endpoints (build_prompt [''POST /a''] (Some ''GET /t'')) =
      extract_endpoints ([newline] @ ''Documentation title: GET /t'' @ [newline, newline] @
        ''Documentation:'' @ [newline] @ ''POST /a'')"
    by (simp only: extract_endpoints_after_preamble)
  also have "\<dots> =
     [\<lparr>EndpointSpec.name = JString ''get_t'', method' = JString ''GET'',
       path = JString ''/t'', description = JString ''Auto-detected endpoint for GET /t''\<rparr>,
      \<lparr>EndpointSpec.name = JString ''post_a'', method' = JString ''POST'',
       path = JString ''/a'', description = JString ''Auto-detected endpoint for POST /a''\<rparr>]"
    by (simp add: newline_def heuristic_eval)
  finally show ?thesis .
qed

section \<open>The orchestrator\<close>

text \<open>
  C1. For every list of document strings and every optional title, whatever client the
  orchestrator holds and whatever exception that client raises, \<open>build_blueprint\<close> returns a
  Blueprint and raises nothing, and the Blueprint has at least one endpoint: it is the one
  obtained from the client, or from the heuristic when the client raised, with the
  \<open>health_check\<close> endpoint (method \<open>GET\<close>, path \<open>/\<close>) put in when its endpoint list is empty.
\<close>

theorem build_blueprint_never_raises:
  "(\<exists>bp. build_blueprint lib self texts heading = Inr bp \<and> endpoints bp \<noteq> [] \<and>
      bp = (let b = (case generate_blueprint lib (llm_client self) (build_prompt texts heading) of
                       Inr b \<Rightarrow> b
                     | Inl e \<Rightarrow> HeuristicLLMClient_generate_blueprint DEFAULT_BLUEPRINT_NAME
                                  (build_prompt texts heading))
            in if endpoints b = [] then b\<lparr>endpoints := [health_check]\<rparr> else b)) \<and>
   EndpointSpec.name health_check = JString ''health_check'' \<and>
   method' health_check = JString ''GET'' \<and> path health_check = JString ''/''"
  by (simp add: build_blueprint_def Let_def health_check_def)

text \<open>
  C2, as the code has it. If every call to the primary strategy raises, \<open>build_blueprint\<close>
  returns what \<open>HeuristicLLMClient.generate_blueprint\<close> gives on the constructed prompt (the
  instruction block, the title line if there is a title, and the documents joined by blank
  lines), with the \<open>health_check\<close> endpoint put in when the heuristic found no endpoint; and
  it raises nothing.
\<close>

theorem fallback_is_heuristic_on_prompt:
  assumes "\<And>prompt. \<exists>e. generate_blueprint lib (llm_client self) prompt = Inl e"
  shows "build_blueprint lib self texts heading =
           Inr (let h = HeuristicLLMClient_generate_blueprint DEFAULT_BLUEPRINT_NAME
                          (build_prompt texts heading)
                in if endpoints h = [] then h\<lparr>endpoints := [health_check]\<rparr> else h)
         \<and> build_prompt texts heading =
             prompt_preamble @
             (case heading of None \<Rightarrow> [] | Some t \<Rightarrow>
                if t = [] then [] else [newline] @ ''Documentation title: '' @ t) @
             [newline, newline] @ ''Documentation:'' @ [newline] @
             py_join [newline, newline] texts"
proof -
  from assms obtain e where
    "generate_blueprint lib (llm_client self) (build_prompt texts heading) = Inl e"
    by blast
  then show ?thesis
    by (simp add: build_blueprint_def build_prompt_def Let_def split: option.splits)
qed

text \<open>With a failing client, a document \<open>POST /a\<close> and the title \<open>GET /t\<close>, the endpoints
  come from the prompt, title line included, and not from the document alone.\<close>

theorem fallback_is_heuristic_on_prompt_witness:
  "build_blueprint example_lib \<lparr>llm_client = failing_client\<rparr> [''POST /a''] (Some ''GET /t'') =
     Inr \<lparr>Blueprint.name = JString ''GeneratedMCPServer'',
          summary = JString ''Heuristically generated MCP server blueprint'',
          endpoints =
            [\<lparr>EndpointSpec.name = JString ''get_t'', method' = JString ''GET'',
              path = JString ''/t'',
              description = JString ''Auto-detected endpoint for GET /t''\<rparr>,
             \<lparr>EndpointSpec.name = JString ''post_a'', method' = JString ''POST'',
              path = JString ''/a'',
              description = JString ''Auto-detected endpoint for POST /a''\<rparr>],
          prerequisites = []\<rparr>"
proof -
  have f: "\<exists>e. generate_blueprint example_lib (llm_client \<lparr>llm_client = failing_client\<rparr>) prompt = Inl e"
    for prompt by (simp add: failing_client_def)
  from fallback_is_heuristic_on_prompt [of example_lib "\<lparr>llm_client = failing_client\<rparr>",
      OF f, THEN conjunct1, of "[''POST /a'']" "Some ''GET /t''"]
  show ?thesis
    by (simp add: example_prompt_endpoints HeuristicLLMClient_generate_blueprint_def
        DEFAULT_BLUEPRINT_NAME_def)
qed

text \<open>C2 as stated fails: with a failing client and no documents the heuristic finds no
  endpoint in the prompt, and \<open>build_blueprint\<close> returns a Blueprint with the \<open>health_check\<close>
  endpoint, which the heuristic's own result does not have.\<close>

theorem fallback_counterexample:
  "build_blueprint example_lib \<lparr>llm_client = failing_client\<rparr> [] None \<noteq>
     Inr (HeuristicLLMClient_generate_blueprint DEFAULT_BLUEPRINT_NAME (build_prompt [] None))"
  by (simp add: build_blueprint_def failing_client_def HeuristicLLMClient_generate_blueprint_def
      heuristic_on_bare_prompt)

text \<open>
  C3, as the code has it. An orchestrator constructed without a client holds a
  \<open>HeuristicLLMClient\<close> with the default name as its primary strategy; one constructed with a
  client holds that client.
\<close>

theorem default_client_is_heuristic:
  "llm_client (LLMOrchestrator_init None) = HeuristicLLMClient DEFAULT_BLUEPRINT_NAME \<and>
   llm_client (LLMOrchestrator_init (Some c)) = c"
  by (simp add: LLMOrchestrator_init_def)

text \<open>C3 as stated fails: the client of an orchestrator constructed without one is not
  the remote client.\<close>

theorem default_client_counterexample:
  "\<not> is_remote (llm_client (LLMOrchestrator_init None))"
  by (simp add: LLMOrchestrator_init_def)

section \<open>The remote client's response parser\<close>

lemma decode_not_json:
  "decode_json 980 4300 ''not json'' =
     Inl (JSONDecodeError ''Expecting value: line 1 column 1 (char 0)'')"
  by (simp add: json_eval show_nat_digit)

lemma decode_example:
  \<open>decode_json 980 4300 ''{"endpoints":[{"method":"get","path":"/x"}]}'' =
    Inr (JObject [(''endpoints'',
           JArray [JObject [(''method'', JString ''get''), (''path'', JString ''/x'')]])])\<close>
  by (simp add: json_eval)

text \<open>
  C7. When \<open>json.loads\<close> raises a \<open>JSONDecodeError\<close> on the response body, the parser
  raises a \<open>ValueError\<close> whose message carries the decode error. When the body decodes to an
  object with the one key \<open>endpoints\<close> holding a list of one object with method \<open>get\<close> and
  path \<open>/x\<close>, the parser returns a Blueprint with one endpoint, named \<open>slugify("get /x")\<close>,
  with the method \<open>get\<close> as written and an empty description, and with the default name and
  summary. An endpoint object without a path gets the path \<open>/\<close>, one without a description
  the empty description; a response without a name or a summary gets the default one.
\<close>

theorem parse_response_contract:
  "(json_loads lib body = Inl (JSONDecodeError exc) \<longrightarrow>
      parse_response lib body = Inl (ValueError (''Model response is not valid JSON: '' @ exc))) \<and>
   (json_loads lib body =
      Inr (JObject [(''endpoints'',
             JArray [JObject [(''method'', JString ''get''), (''path'', JString ''/x'')]])]) \<longrightarrow>
      parse_response lib body =
        Inr \<lparr>Blueprint.name = JString DEFAULT_BLUEPRINT_NAME,
             summary = JString ''Generated MCP server'',
             endpoints = [\<lparr>EndpointSpec.name = JString (slugify ''get /x''),
                           method' = JString ''get'', path = JString ''/x'',
                           description = JString []\<rparr>],
             prerequisites = []\<rparr>) \<and>
   (map_of item ''path'' = None \<longrightarrow>
      (\<exists>ep. endpoint_from_item lib (JObject item) = Inr ep \<and> path ep = JString ''/'')) \<and>
   (map_of item ''description'' = None \<longrightarrow>
      (\<exists>ep. endpoint_from_item lib (JObject item) = Inr ep \<and> description ep = JString [])) \<and>
   (blueprint_from_dict lib (JObject d) = Inr bp \<and> map_of d ''name'' = None \<longrightarrow>
      Blueprint.name bp = JString DEFAULT_BLUEPRINT_NAME) \<and>
   (blueprint_from_dict lib (JObject d) = Inr bp \<and> map_of d ''summary'' = None \<longrightarrow>
      summary bp = JString ''Generated MCP server'')"
proof -
  have a: "parse_response lib body = Inl (ValueError (''Model response is not valid JSON: '' @ exc))"
    if "json_loads lib body = Inl (JSONDecodeError exc)"
    using that by (simp add: parse_response_def)
  have b: "parse_response lib body =
        Inr \<lparr>Blueprint.name = JString DEFAULT_BLUEPRINT_NAME,
             summary = JString ''Generated MCP server'',
             endpoints = [\<lparr>EndpointSpec.name = JString (slugify ''get /x''),
                           method' = JString ''get'', path = JString ''/x'',
                           description = JString []\<rparr>],
             prerequisites = []\<rparr>"
    if "json_loads lib body =
      Inr (JObject [(''endpoints'',
             JArray [JObject [(''method'', JString ''get''), (''path'', JString ''/x'')]])])"
    using that
    by (simp add: parse_response_def blueprint_from_dict_def endpoint_from_item_def
        dict_get_def py_str_def)
  have c: "\<exists>ep. endpoint_from_item lib (JObject item) = Inr ep \<and> path ep = JString ''/''"
    if "map_of item ''path'' = None"
    using that by (simp add: endpoint_from_item_def dict_get_def)
  have d: "\<exists>ep. endpoint_from_item lib (JObject item) = Inr ep \<and> description ep = JString []"
    if "map_of item ''description'' = None"
    using that by (simp add: endpoint_from_item_def dict_get_def)
  have e: "Blueprint.name bp = JString DEFAULT_BLUEPRINT_NAME"
    if "blueprint_from_dict lib (JObject d) = Inr bp" and "map_of d ''name'' = None"
    using that by (auto simp: blueprint_from_dict_def dict_get_def Let_def split: sum.splits)
  have f: "summary bp = JString ''Generated MCP server''"
    if "blueprint_from_dict lib (JObject d) = Inr bp" and "map_of d ''summary'' = None"
    using that by (auto simp: blueprint_from_dict_def dict_get_def Let_def split: sum.splits)
  from a b c d e f show ?thesis by blast
qed

text \<open>The two response bodies of the claim, decoded by \<^const>\<open>decode_json\<close>.\<close>

theorem parse_response_contract_witness:
  \<open>parse_response example_lib ''not json'' =
     Inl (ValueError
       ''Model response is not valid JSON: Expecting value: line 1 column 1 (char 0)'') \<and>
   parse_response example_lib ''{"endpoints":[{"method":"get","path":"/x"}]}'' =
     Inr \<lparr>Blueprint.name = JString ''GeneratedMCPServer'',
          summary = JString ''Generated MCP server'',
          endpoints = [\<lparr>EndpointSpec.name = JString ''get_x'', method' = JString ''get'',
                        path = JString ''/x'', description = JString []\<rparr>],
          prerequisites = []\<rparr>\<close>
proof -
  have 1: "json_loads example_lib ''not json'' =
      Inl (JSONDecodeError ''Expecting value: line 1 column 1 (char 0)'')"
    by (simp add: example_lib_def decode_not_json)
  have 2: \<open>json_loads example_lib ''{"endpoints":[{"method":"get","path":"/x"}]}'' =
      Inr (JObject [(''endpoints'',
             JArray [JObject [(''method'', JString ''get''), (''path'', JString ''/x'')]])])\<close>
    by (simp add: example_lib_def decode_example)
  have 3: "slugify ''get /x'' = ''get_x''" by (simp add: heuristic_eval)
  from parse_response_contract [of example_lib "''not json''"] 1
  have "parse_response example_lib ''not json'' =
     Inl (ValueError
       ''Model response is not valid JSON: Expecting value: line 1 column 1 (char 0)'')"
    by simp
  moreover from parse_response_contract [of example_lib] 2
  have \<open>parse_response example_lib ''{"endpoints":[{"method":"get","path":"/x"}]}'' =
     Inr \<lparr>Blueprint.name = JString DEFAULT_BLUEPRINT_NAME,
          summary = JString ''Generated MCP server'',
          endpoints = [\<lparr>EndpointSpec.name = JString (slugify ''get /x''),
                        method' = JString ''get'', path = JString ''/x'',
                        description = JString []\<rparr>],
          prerequisites = []\<rparr>\<close>
    by blast
  ultimately show ?thesis by (simp add: 3 DEFAULT_BLUEPRINT_NAME_def)
qed

section \<open>The crawler\<close>

subsection \<open>What one run of the loop body changes\<close>

lemma crawl_iteration_cases:
  assumes "crawl_iteration env self u st = r" and "r = Inr st' \<or> r = Inl (e, st')"
  shows "(visited st' = visited st \<or> (visited st' = finsert u (visited st) \<and> u |\<notin>| visited st)) \<and>
         (fetched st' = fetched st \<or>
            (fetched st' = fetched st @ [u] \<and> url_allowed env self u = Inr True))"
  using assms
  by (auto simp: crawl_iteration_def Let_def
      split: sum.splits if_splits prod.splits fetch_result.splits)

lemma crawl_states_unfold:
  "crawl_states env self st =
     st # (if crawl_guard self st
           then (case crawl_iteration env self (hd (q st)) (st\<lparr>q := tl (q st)\<rparr>) of
                   Inl (e, st') \<Rightarrow> [st']
                 | Inr st' \<Rightarrow> crawl_states env self st')
           else [])"
  by (rule crawl_states.simps)

lemma crawl_states_nonempty: "crawl_states env self st \<noteq> []"
  by (subst crawl_states_unfold) simp

text \<open>A property that holds at the start and that every run of the loop body keeps, whether
  it ends normally or raises, holds in every state the loop goes through.\<close>

lemma crawl_states_invariant:
  assumes init: "I st"
    and step: "\<And>s s' r. I s \<Longrightarrow> crawl_guard self s \<Longrightarrow>
       crawl_iteration env self (hd (q s)) (s\<lparr>q := tl (q s)\<rparr>) = r \<Longrightarrow>
       r = Inr s' \<or> (\<exists>e. r = Inl (e, s')) \<Longrightarrow> I s'"
  shows "\<forall>s \<in> set (crawl_states env self st). I s"
  using assms
proof (induction env self st rule: crawl_states.induct)
  case (1 env self st)
  note step = "1.prems"(2)
  show ?case
  proof (cases "crawl_guard self st")
    case False
    then have "crawl_states env self st = [st]"
      by (subst crawl_states_unfold) simp
    with "1.prems"(1) show ?thesis by simp
  next
    case True
    show ?thesis
    proof (cases "crawl_iteration env self (hd (q st)) (st\<lparr>q := tl (q st)\<rparr>)")
      case (Inl x)
      obtain e st' where x: "x = (e, st')" by (cases x)
      have "I st'"
        by (rule step [OF "1.prems"(1) True Inl]) (simp add: x)
      moreover from True Inl x have "crawl_states env self st = [st, st']"
        by (subst crawl_states_unfold) simp
      ultimately show ?thesis using "1.prems"(1) by simp
    next
      case (Inr st')
      have "I st'"
        by (rule step [OF "1.prems"(1) True Inr]) simp
      then have "\<forall>s \<in> set (crawl_states env self st'). I s"
        using "1.IH" True Inr step by blast
      moreover from True Inr have "crawl_states env self st = st # crawl_states env self st'"
        by (subst crawl_states_unfold) simp
      ultimately show ?thesis using "1.prems"(1) by simp
    qed
  qed
qed

text \<open>The state \<open>crawl\<close> ends in is the last of the states the loop goes through.\<close>

lemma crawl_loop_last_state:
  "crawl_loop env self st = Inr st' \<or> crawl_loop env self st = Inl (e, st') \<Longrightarrow>
     st' = last (crawl_states env self st)"
proof (induction env self st rule: crawl_loop.induct)
  case (1 env self st)
  show ?case
  proof (cases "crawl_guard self st")
    case False
    then have "crawl_states env self st = [st]"
      by (subst crawl_states_unfold) simp
    moreover from False "1.prems" have "st' = st"
      by (simp add: crawl_loop.simps [of env self st])
    ultimately show ?thesis by simp
  next
    case True
    show ?thesis
    proof (cases "crawl_iteration env self (hd (q st)) (st\<lparr>q := tl (q st)\<rparr>)")
      case (Inl x)
      obtain e' s where x: "x = (e', s)" by (cases x)
      from True Inl x have "crawl_states env self st = [st, s]"
        by (subst crawl_states_unfold) simp
      moreover from True Inl x "1.prems" have "st' = s"
        by (simp add: crawl_loop.simps [of env self st])
      ultimately show ?thesis by simp
    next
      case (Inr s)
      with "1.prems" True
      have "crawl_loop env self s = Inr st' \<or> crawl_loop env self s = Inl (e, st')"
        by (simp add: crawl_loop.simps [of env self st])
      with "1.IH" True Inr have "st' = last (crawl_states env self s)" by simp
      moreover from True Inr have "crawl_states env self st = st # crawl_states env self s"
        by (subst crawl_states_unfold) simp
      ultimately show ?thesis by (simp add: crawl_states_nonempty)
    qed
  qed
qed

lemma crawl_final_state:
  "snd (crawl env self w) = last (crawl_states env self (crawl_init self w))"
proof (cases "crawl_loop env self (crawl_init self w)")
  case (Inl x)
  obtain e st where "x = (e, st)" by (cases x)
  with Inl crawl_loop_last_state [of env self "crawl_init self w" st e] show ?thesis
    by (simp add: crawl_def)
next
  case (Inr st)
  with crawl_loop_last_state [of env self "crawl_init self w" st] show ?thesis
    by (simp add: crawl_def)
qed

lemma crawl_final_state_in:
  "snd (crawl env self w) \<in> set (crawl_states env self (crawl_init self w))"
proof -
  have "crawl_states env self (crawl_init self w) \<noteq> []"
    by (rule crawl_states_nonempty)
  then show ?thesis by (simp add: crawl_final_state)
qed

subsection \<open>The page cap\<close>

lemma visited_bound_states:
  "\<forall>s \<in> set (crawl_states env self (crawl_init self w)).
     int (fcard (visited s)) \<le> max 0 (max_pages (config self))"
proof (rule crawl_states_invariant)
  show "int (fcard (visited (crawl_init self w))) \<le> max 0 (max_pages (config self))"
    by (simp add: crawl_init_def fcard_fempty)
next
  fix s s' :: "'a crawl_state" and r
  assume g: "crawl_guard self s"
    and it: "crawl_iteration env self (hd (q s)) (s\<lparr>q := tl (q s)\<rparr>) = r"
    and r: "r = Inr s' \<or> (\<exists>e. r = Inl (e, s'))"
  from r obtain e where "r = Inr s' \<or> r = Inl (e, s')" by blast
  from crawl_iteration_cases [OF it this]
  have "fcard (visited s') \<le> Suc (fcard (visited s))"
    by (auto simp: fcard_finsert_if)
  with g show "int (fcard (visited s')) \<le> max 0 (max_pages (config self))"
    by (simp add: crawl_guard_def)
qed

lemma example_crawl_negative_cap:
  "crawl example_env (example_crawler (- 1) []) () =
     (Inr \<lparr>documents = []\<rparr>,
      \<lparr>visited = {||}, docs = [], q = [''http://docs.example/''], world = (), fetched = []\<rparr>)"
  by (simp add: crawl_eval crawl_loop.simps)

lemma example_crawl_cap_2:
  "snd (crawl example_env (example_crawler 2 []) ()) =
      \<lparr>visited = {|''http://docs.example/a'', ''http://docs.example/''|},
       docs = [\<lparr>url = ''http://docs.example/'', content = ''index'',
                content_type = ''text/html'',
                metadata = [(''source'', ''http://docs.example/'')], title = Some ''Docs''\<rparr>,
               \<lparr>url = ''http://docs.example/a'', content = ''{}'',
                content_type = ''application/json'', metadata = [], title = None\<rparr>],
       q = [''http://docs.example/b''], world = (),
       fetched = [''http://docs.example/'', ''http://docs.example/a'']\<rparr>"
  by (simp add: crawl_eval crawl_loop.simps)

text \<open>
  C4, as the code has it. In every state the loop of \<open>crawl\<close> goes through, and in the
  state it ends in, the number of visited URLs is at most the larger of \<open>max_pages\<close> and 0:
  at most \<open>max_pages\<close> when that is not negative. With a negative \<open>max_pages\<close> the loop body
  never runs and the number stays 0.
\<close>

theorem crawl_visited_within_cap:
  "(\<forall>st \<in> set (crawl_states env self (crawl_init self w)).
      int (fcard (visited st)) \<le> max 0 (max_pages (config self))) \<and>
   snd (crawl env self w) \<in> set (crawl_states env self (crawl_init self w)) \<and>
   int (fcard (visited (snd (crawl env self w)))) \<le> max 0 (max_pages (config self))"
  using visited_bound_states [of env self w] crawl_final_state_in [of env self w] by blast

text \<open>With a cap of 2 the crawl of the example site stops with two URLs visited and a
  third still in the queue.\<close>

theorem crawl_visited_within_cap_witness:
  "int (fcard (visited (snd (crawl example_env (example_crawler 2 []) ())))) \<le> max 0 2 \<and>
   visited (snd (crawl example_env (example_crawler 2 []) ())) =
     {|''http://docs.example/a'', ''http://docs.example/''|} \<and>
   q (snd (crawl example_env (example_crawler 2 []) ())) = [''http://docs.example/b'']"
proof -
  have "max_pages (config (example_crawler 2 [])) = 2"
    by (simp add: example_crawler_def)
  with crawl_visited_within_cap [of example_env "example_crawler 2 []" "()"]
  have "int (fcard (visited (snd (crawl example_env (example_crawler 2 []) ())))) \<le> max 0 2"
    by simp
  then show ?thesis by (simp add: example_crawl_cap_2)
qed

text \<open>C4 as stated fails for a negative cap: with \<open>max_pages = -1\<close> the crawl ends with
  no URL visited, and 0 exceeds the cap.\<close>

theorem crawl_cap_counterexample:
  "\<not> int (fcard (visited (snd (crawl example_env (example_crawler (- 1) []) ()))))
       \<le> max_pages (config (example_crawler (- 1) []))"
  by (simp add: example_crawl_negative_cap) (simp add: example_crawler_def)

subsection \<open>The scope check\<close>

lemma fetched_allowed_states:
  "\<forall>s \<in> set (crawl_states env self (crawl_init self w)).
     \<forall>u \<in> set (fetched s). url_allowed env self u = Inr True"
proof (rule crawl_states_invariant)
  show "\<forall>u \<in> set (fetched (crawl_init self w)). url_allowed env self u = Inr True"
    by (simp add: crawl_init_def)
next
  fix s s' :: "'a crawl_state" and r
  assume I: "\<forall>u \<in> set (fetched s). url_allowed env self u = Inr True"
    and it: "crawl_iteration env self (hd (q s)) (s\<lparr>q := tl (q s)\<rparr>) = r"
    and r: "r = Inr s' \<or> (\<exists>e. r = Inl (e, s'))"
  from r obtain e where "r = Inr s' \<or> r = Inl (e, s')" by blast
  from crawl_iteration_cases [OF it this] I
  show "\<forall>u \<in> set (fetched s'). url_allowed env self u = Inr True"
    by auto
qed

lemma url_allowed_netloc:
  "url_allowed env self u = Inr True \<Longrightarrow> urlparse_netloc env u = Inr (allowed_netloc self)"
  by (auto simp: url_allowed_def split: sum.splits if_splits)

lemma init_allowed_netloc:
  "DocumentationCrawler_init env start cfg = Inr self \<Longrightarrow>
     urlparse_netloc env start = Inr (allowed_netloc self) \<and> start_url self = start"
  by (auto simp: DocumentationCrawler_init_def split: sum.splits)

lemma any_fullmatch_member:
  "p \<in> set ps \<Longrightarrow> re_fullmatch env p u = Inr True \<Longrightarrow> any_fullmatch env ps u \<noteq> Inr False"
  by (induction ps) (auto split: sum.splits)

lemma any_fullmatch_valid:
  "\<forall>p \<in> set ps. \<exists>b. re_fullmatch env p u = Inr b \<Longrightarrow> \<exists>b. any_fullmatch env ps u = Inr b"
  by (induction ps) (auto split: sum.splits)

lemma url_allowed_denied:
  assumes "d \<in> set (deny_patterns (config self))" and "re_fullmatch env d u = Inr True"
  shows "url_allowed env self u \<noteq> Inr True"
  using any_fullmatch_member [OF assms]
  by (auto simp: url_allowed_def split: sum.splits if_splits)

lemma url_allowed_valid:
  assumes "urlparse_netloc env u = Inr n"
    and "\<forall>p \<in> set (allow_patterns (config self) @ deny_patterns (config self)).
           \<exists>b. re_fullmatch env p u = Inr b"
  shows "\<exists>b. url_allowed env self u = Inr b"
proof -
  from assms(2) obtain a where a: "any_fullmatch env (allow_patterns (config self)) u = Inr a"
    using any_fullmatch_valid [of "allow_patterns (config self)" env u] by auto
  from assms(2) obtain d where d: "any_fullmatch env (deny_patterns (config self)) u = Inr d"
    using any_fullmatch_valid [of "deny_patterns (config self)" env u] by auto
  from assms(1) a d show ?thesis by (auto simp: url_allowed_def)
qed

lemma example_crawl_cap_5:
  "fetched (snd (crawl example_env (example_crawler 5 []) ())) =
     [''http://docs.example/'', ''http://docs.example/a'', ''http://docs.example/b'']"
  by (simp add: crawl_eval crawl_loop.simps)

lemma example_crawl_deny:
  "fetched (snd (crawl example_env (example_crawler 5 [''http://docs.example/b'']) ())) =
     [''http://docs.example/'', ''http://docs.example/a'']"
  by (simp add: crawl_eval crawl_loop.simps)

text \<open>
  C5. For a crawler constructed on a start URL, every URL passed to \<open>session.get\<close>, in
  every state the loop goes through, has passed the scope check and has the host of the
  start URL; and the scope check lets no URL pass whose host differs from that of the start
  URL.
\<close>

theorem crawl_fetches_same_host:
  assumes "DocumentationCrawler_init env start cfg = Inr self"
  shows "(\<forall>st \<in> set (crawl_states env self (crawl_init self w)). \<forall>u \<in> set (fetched st).
            url_allowed env self u = Inr True \<and> url_host env u = url_host env start) \<and>
         (\<forall>v. url_host env v \<noteq> url_host env start \<longrightarrow> url_allowed env self v \<noteq> Inr True)"
proof -
  from assms have n: "urlparse_netloc env start = Inr (allowed_netloc self)"
    by (simp add: init_allowed_netloc)
  have h: "url_host env v = url_host env start" if "url_allowed env self v = Inr True" for v
    using url_allowed_netloc [OF that] n by (simp add: url_host_def)
  with fetched_allowed_states [of env self w] show ?thesis by blast
qed

text \<open>The crawl of the example site fetches its three URLs on the start host and rejects
  the link to the other host.\<close>

theorem crawl_fetches_same_host_witness:
  "DocumentationCrawler_init example_env ''http://docs.example/''
      (Some (CrawlConfig_default\<lparr>max_pages := 5, deny_patterns := []\<rparr>)) =
     Inr (example_crawler 5 []) \<and>
   fetched (snd (crawl example_env (example_crawler 5 []) ())) =
     [''http://docs.example/'', ''http://docs.example/a'', ''http://docs.example/b''] \<and>
   url_host example_env ''http://docs.example/b'' = url_host example_env ''http://docs.example/'' \<and>
   url_allowed example_env (example_crawler 5 []) ''http://other.example/x'' = Inr False"
proof -
  let ?self = "example_crawler 5 []"
  have i: "DocumentationCrawler_init example_env ''http://docs.example/''
      (Some (CrawlConfig_default\<lparr>max_pages := 5, deny_patterns := []\<rparr>)) = Inr ?self"
    by (simp add: DocumentationCrawler_init_def crawl_eval)
  have m: "''http://docs.example/b'' \<in> set (fetched (snd (crawl example_env ?self ())))"
    by (simp add: example_crawl_cap_5)
  have "snd (crawl example_env ?self ()) \<in> set (crawl_states example_env ?self (crawl_init ?self ()))"
    by (rule crawl_final_state_in)
  with crawl_fetches_same_host [OF i, of "()"] m
  have "url_host example_env ''http://docs.example/b'' = url_host example_env ''http://docs.example/''"
    by blast
  moreover have "url_allowed example_env ?self ''http://other.example/x'' = Inr False"
    by (simp add: crawl_eval)
  ultimately show ?thesis using i by (simp add: example_crawl_cap_5)
qed

text \<open>
  C6. A URL that fully matches an allow pattern and also fully matches a deny pattern
  does not pass the scope check, whatever the other patterns are: the check never answers
  True for it, it answers False when no library call raises, and no state of a crawl has
  the URL among those fetched.
\<close>

theorem deny_wins:
  assumes "a \<in> set (allow_patterns (config self))" and "re_fullmatch env a u = Inr True"
    and "d \<in> set (deny_patterns (config self))" and "re_fullmatch env d u = Inr True"
  shows "url_allowed env self u \<noteq> Inr True \<and>
         ((\<exists>n. urlparse_netloc env u = Inr n) \<and>
          (\<forall>p \<in> set (allow_patterns (config self) @ deny_patterns (config self)).
             \<exists>b. re_fullmatch env p u = Inr b) \<longrightarrow> url_allowed env self u = Inr False) \<and>
         (\<forall>st \<in> set (crawl_states env self (crawl_init self w)). u \<notin> set (fetched st))"
proof -
  have ne: "url_allowed env self u \<noteq> Inr True"
    using assms(3,4) by (rule url_allowed_denied)
  moreover have "url_allowed env self u = Inr False"
    if "\<exists>n. urlparse_netloc env u = Inr n"
      and "\<forall>p \<in> set (allow_patterns (config self) @ deny_patterns (config self)).
             \<exists>b. re_fullmatch env p u = Inr b"
  proof -
    from that obtain b where "url_allowed env self u = Inr b"
      using url_allowed_valid by blast
    with ne show ?thesis by (cases b) auto
  qed
  moreover have "\<forall>st \<in> set (crawl_states env self (crawl_init self w)). u \<notin> set (fetched st)"
    using fetched_allowed_states [of env self w] ne by blast
  ultimately show ?thesis by blast
qed

text \<open>On the example site with \<open>/b\<close> denied, \<open>/b\<close> matches the allow pattern \<open>.*\<close> and the
  deny pattern, fails the scope check and is not fetched.\<close>

theorem deny_wins_witness:
  "url_allowed example_env (example_crawler 5 [''http://docs.example/b''])
      ''http://docs.example/b'' = Inr False \<and>
   ''http://docs.example/b'' \<notin>
      set (fetched (snd (crawl example_env (example_crawler 5 [''http://docs.example/b'']) ()))) \<and>
   fetched (snd (crawl example_env (example_crawler 5 [''http://docs.example/b'']) ())) =
     [''http://docs.example/'', ''http://docs.example/a'']"
proof -
  let ?self = "example_crawler 5 [''http://docs.example/b'']"
  let ?u = "''http://docs.example/b''"
  have 1: "''.*'' \<in> set (allow_patterns (config ?self))"
    by (simp add: example_crawler_def CrawlConfig_default_def)
  have 2: "re_fullmatch example_env ''.*'' ?u = Inr True" by (simp add: example_env_def)
  have 3: "?u \<in> set (deny_patterns (config ?self))" by (simp add: example_crawler_def)
  have 4: "re_fullmatch example_env ?u ?u = Inr True" by (simp add: example_env_def)
  have 5: "\<exists>n. urlparse_netloc example_env ?u = Inr n" by (simp add: example_env_def)
  have 6: "\<forall>p \<in> set (allow_patterns (config ?self) @ deny_patterns (config ?self)).
             \<exists>b. re_fullmatch example_env p ?u = Inr b"
    by (simp add: example_env_def)
  have 7: "snd (crawl example_env ?self ()) \<in> set (crawl_states example_env ?self (crawl_init ?self ()))"
    by (rule crawl_final_state_in)
  from deny_wins [OF 1 2 3 4, of "()"] 5 6 7
  have "url_allowed example_env ?self ?u = Inr False \<and>
        ?u \<notin> set (fetched (snd (crawl example_env ?self ())))"
    by blast
  then show ?thesis by (simp add: example_crawl_deny)
qed

end
